theory Spec2Isabelle
  imports Main "HOL-Library.Char_ord" "HOL-Library.List_Lexorder"
    "HOL-Library.AList"
begin

section \<open>Strings and POSIX path functions\<close>

text \<open>
  The server is \<^verbatim>\<open>src/server.py\<close>. It runs on a POSIX system (\<^verbatim>\<open>os.sep\<close> is
  \<^verbatim>\<open>/\<close>, \<^verbatim>\<open>os.path\<close> is \<^verbatim>\<open>posixpath\<close>). The functions of this section
  are the string functions of Python and of \<^verbatim>\<open>posixpath\<close> that the server calls,
  written out as the library computes them. A Python \<^verbatim>\<open>str\<close> is modelled as a
  \<^typ>\<open>string\<close>; characters are compared by their code.
\<close>

definition startswith :: "string \<Rightarrow> string \<Rightarrow> bool" where
  "startswith s p = (take (length p) s = p)"

definition endswith :: "string \<Rightarrow> string \<Rightarrow> bool" where
  "endswith s p = (length p \<le> length s \<and> drop (length s - length p) s = p)"

text \<open>\<^verbatim>\<open>s.lstrip(chars)\<close>: drop the leading characters that are in \<open>chars\<close>.\<close>

definition lstrip :: "string \<Rightarrow> string \<Rightarrow> string" where
  "lstrip chars s = dropWhile (\<lambda>c. c \<in> set chars) s"

text \<open>\<^verbatim>\<open>s.split('/')\<close>: the pieces between separators; never the empty list.\<close>

fun split_sep :: "string \<Rightarrow> string list" where
  "split_sep [] = [[]]"
| "split_sep (c # cs) =
     (if c = CHR ''/'' then [] # split_sep cs
      else (case split_sep cs of [] \<Rightarrow> [[c]] | w # ws \<Rightarrow> (c # w) # ws))"

text \<open>\<^verbatim>\<open>'/'.join(comps)\<close>.\<close>

fun sep_join :: "string list \<Rightarrow> string" where
  "sep_join [] = []"
| "sep_join [x] = x"
| "sep_join (x # y # ys) = x @ CHR ''/'' # sep_join (y # ys)"

definition isabs :: "string \<Rightarrow> bool" where
  "isabs s = startswith s ''/''"

text \<open>\<^verbatim>\<open>os.path.join(a, b)\<close> for two arguments.\<close>

definition join :: "string \<Rightarrow> string \<Rightarrow> string" where
  "join a b =
     (if startswith b ''/'' then b
      else if a = [] \<or> endswith a ''/'' then a @ b
      else a @ ''/'' @ b)"

text \<open>\<^verbatim>\<open>os.path.basename\<close>: what follows the last separator.\<close>

definition basename :: "string \<Rightarrow> string" where
  "basename p = rev (takeWhile (\<lambda>c. c \<noteq> CHR ''/'') (rev p))"

text \<open>
  \<^verbatim>\<open>os.path.dirname\<close>: what precedes the final component, without its trailing
  separators unless it consists of separators only.
\<close>

definition dirname :: "string \<Rightarrow> string" where
  "dirname p =
     (let hd' = rev (dropWhile (\<lambda>c. c \<noteq> CHR ''/'') (rev p))
      in if hd' \<noteq> [] \<and> hd' \<noteq> replicate (length hd') (CHR ''/'')
         then rev (dropWhile (\<lambda>c. c = CHR ''/'') (rev hd'))
         else hd')"

text \<open>
  \<^verbatim>\<open>posixpath.normpath\<close>. \<open>initial_slashes\<close> is 0 for a relative path, 2 for a path
  that starts with exactly two separators and 1 for every other absolute path.
  \<open>norm_step\<close> is the body of the loop over the components, \<open>new_comps\<close> its
  accumulator.
\<close>

definition initial_slashes :: "string \<Rightarrow> nat" where
  "initial_slashes path =
     (if \<not> startswith path ''/'' then 0
      else if startswith path ''//'' \<and> \<not> startswith path ''///'' then 2
      else 1)"

definition norm_step :: "nat \<Rightarrow> string list \<Rightarrow> string \<Rightarrow> string list" where
  "norm_step slashes new_comps c =
     (if c = [] \<or> c = ''.'' then new_comps
      else if c \<noteq> ''..'' \<or> (slashes = 0 \<and> new_comps = [])
              \<or> (new_comps \<noteq> [] \<and> last new_comps = ''..'')
           then new_comps @ [c]
      else if new_comps \<noteq> [] then butlast new_comps
      else new_comps)"

definition normpath :: "string \<Rightarrow> string" where
  "normpath path =
     (if path = [] then ''.''
      else
        let slashes = initial_slashes path;
            comps = foldl (norm_step slashes) [] (split_sep path);
            p = replicate slashes (CHR ''/'') @ sep_join comps
        in if p = [] then ''.'' else p)"

text \<open>
  A component that \<open>normpath\<close> keeps as it is: not empty, not \<^verbatim>\<open>.\<close>, not
  \<^verbatim>\<open>..\<close>, and without a separator.
\<close>

definition plain :: "string \<Rightarrow> bool" where
  "plain c = (c \<noteq> [] \<and> c \<noteq> ''.'' \<and> c \<noteq> ''..'' \<and> CHR ''/'' \<notin> set c)"

text \<open>
  \<^verbatim>\<open>os.path.abspath\<close>. The working directory of the process, which
  \<^verbatim>\<open>os.getcwd()\<close> returns, is the first argument.
\<close>

definition abspath :: "string \<Rightarrow> string \<Rightarrow> string" where
  "abspath cwd path = normpath (if \<not> isabs path then join cwd path else path)"

text \<open>
  The longest common leading part of two component lists, which
  \<^verbatim>\<open>commonprefix([start_list, path_list])\<close> computes from their minimum and
  maximum.
\<close>

fun commonprefix :: "string list \<Rightarrow> string list \<Rightarrow> string list" where
  "commonprefix (x # xs) (y # ys) = (if x = y then x # commonprefix xs ys else [])"
| "commonprefix _ _ = []"

section \<open>Errors and configuration\<close>

text \<open>
  Every \<^verbatim>\<open>raise\<close> of the server is a value of \<open>error\<close>. The five boundary
  violations are \<^verbatim>\<open>PermissionError\<close>s in the source, told apart by their message:
  \<^item> \<open>PathEscape\<close>: "Path escapes sandbox root";
  \<^item> \<open>PolicyDenied (Some pat)\<close>: "Denied by policy: pat";
    \<open>PolicyDenied None\<close>: "Not allowed by policy";
  \<^item> \<open>FeatureDisabled\<close>: "run() is disabled by server policy";
  \<^item> \<open>CommandNotAllowed base\<close>: "Command 'base' not in allowlist";
  \<^item> \<open>ArgumentPrefixViolation prefix base\<close>: "Args must start with prefix for 'base'".

  The others are the exceptions the server raises itself for a wrong kind of entry
  (\<open>NotFound\<close>, \<open>AlreadyExists\<close>, \<open>IsADirectory\<close>) and those of the library calls.
\<close>

datatype error =
    PathEscape
  | PolicyDenied "string option"
  | FeatureDisabled
  | CommandNotAllowed string
  | ArgumentPrefixViolation "string list" string
  | NotFound string
  | AlreadyExists string
  | IsADirectory string
  | NotADirectory string
  | ValueError string
  | LookupError string
  | UnicodeError string
  | OSError string

fun is_PermissionError :: "error \<Rightarrow> bool" where
  "is_PermissionError PathEscape = True"
| "is_PermissionError (PolicyDenied _) = True"
| "is_PermissionError FeatureDisabled = True"
| "is_PermissionError (CommandNotAllowed _) = True"
| "is_PermissionError (ArgumentPrefixViolation _ _) = True"
| "is_PermissionError _ = False"

text \<open>
  The module-level configuration, read once at start-up, and the working directory of
  the process.
\<close>

record config =
  ROOT_DIR :: string
  ENABLE_RUN_COMMANDS :: bool
  ALLOW_GLOBS :: "string list"
  DENY_GLOBS :: "string list"
  COMMAND_ALLOWLIST :: "(string \<times> string list) list"
  RUN_TIMEOUT_SEC :: int
  RUN_MAX_STDOUT :: int
  getcwd :: string

text \<open>
  The values of the source when the process runs in \<open>cwd\<close>, with the root and the
  switch of \<^verbatim>\<open>run\<close> that the environment gives.
\<close>

definition default_config :: "string \<Rightarrow> string \<Rightarrow> bool \<Rightarrow> config" where
  "default_config cwd root enabled =
     \<lparr> ROOT_DIR = root,
       ENABLE_RUN_COMMANDS = enabled,
       ALLOW_GLOBS = [''**/*''],
       DENY_GLOBS = [''**/.env*'', ''**/.ssh/**'', ''**/.git/**'', ''**/node_modules/**'', ''**/id_*''],
       COMMAND_ALLOWLIST =
         [(''bash'', [''-lc'']), (''sh'', [''-lc'']), (''python'', [''-V'']), (''pip'', [''--version''])],
       RUN_TIMEOUT_SEC = 30,
       RUN_MAX_STDOUT = 200000,
       getcwd = cwd \<rparr>"

text \<open>
  \<^verbatim>\<open>os.path.relpath(path, start)\<close>: both arguments are made absolute, and the
  result climbs from \<open>start\<close> to the common part and descends to \<open>path\<close>. An empty
  \<open>path\<close> raises \<^verbatim>\<open>ValueError\<close>.
\<close>

definition relpath :: "string \<Rightarrow> string \<Rightarrow> string \<Rightarrow> error + string" where
  "relpath cwd path start =
     (if path = [] then Inl (ValueError ''no path specified'')
      else
        let start_list = filter (\<lambda>x. x \<noteq> []) (split_sep (abspath cwd start));
            path_list = filter (\<lambda>x. x \<noteq> []) (split_sep (abspath cwd path));
            i = length (commonprefix start_list path_list);
            rel_list = replicate (length start_list - i) ''..'' @ drop i path_list
        in if rel_list = [] then Inr ''.''
           else Inr (foldl join (hd rel_list) (tl rel_list)))"

section \<open>Path resolution\<close>

text \<open>
  A name cannot start with an underscore here: \<^verbatim>\<open>_abs\<close> is \<open>abs'\<close>, and
  \<^verbatim>\<open>_deny_check\<close>, \<^verbatim>\<open>_allow_check\<close> and \<^verbatim>\<open>_policy\<close> are \<open>deny_check\<close>,
  \<open>allow_check\<close> and \<open>policy\<close>. \<open>sandbox_base\<close> is the local \<^verbatim>\<open>base\<close>.
  \<^verbatim>\<open>
  def _abs(path: str) -> str:
      base = os.path.abspath(ROOT_DIR)
      target = os.path.abspath(os.path.join(base, path.lstrip("/\\")))
      if not (target.startswith(base + os.sep) or target == base):
          raise PermissionError("Path escapes sandbox root")
      return target
  \<close>
\<close>

definition sandbox_base :: "config \<Rightarrow> string" where
  "sandbox_base cfg = abspath (getcwd cfg) (ROOT_DIR cfg)"

definition abs' :: "config \<Rightarrow> string \<Rightarrow> error + string" where
  "abs' cfg path =
     (let base = sandbox_base cfg;
          target = abspath (getcwd cfg) (join base (lstrip [CHR ''/'', CHR 0x5C] path))
      in if \<not> (startswith target (base @ ''/'') \<or> target = base)
         then Inl PathEscape
         else Inr target)"

section \<open>Shell patterns\<close>

text \<open>
  \<^verbatim>\<open>fnmatch.fnmatch(name, pat)\<close>, which on POSIX compares without case
  normalisation. The library translates the pattern into a sequence of pieces:
  \<^verbatim>\<open>*\<close> becomes \<open>STAR\<close> (any run of characters, separators included),
  \<^verbatim>\<open>?\<close> any one character, \<^verbatim>\<open>[seq]\<close> a set of characters, \<^verbatim>\<open>[!seq]\<close>
  its complement, and every other character itself. The name matches when it can be
  cut into consecutive parts that match the pieces in order.

  A bracket is closed by the first \<^verbatim>\<open>]\<close> after its first character (after a
  leading \<^verbatim>\<open>!\<close>); a bracket that is never closed is a literal \<^verbatim>\<open>[\<close>.
  \<open>bracket_end\<close> is the index \<open>j\<close> of the closing bracket, counted from after the
  opening one.
\<close>

datatype set_item = Lit char | Range char char

datatype atom = STAR | AnyChar | Literal char | CharSet bool "set_item list"

definition bracket_end :: "string \<Rightarrow> nat option" where
  "bracket_end pat =
     (let j1 = (if pat \<noteq> [] \<and> hd pat = CHR ''!'' then 1 else 0);
          j2 = (if drop j1 pat \<noteq> [] \<and> hd (drop j1 pat) = CHR '']'' then j1 + 1 else j1);
          j = j2 + length (takeWhile (\<lambda>c. c \<noteq> CHR '']'') (drop j2 pat))
      in if j \<ge> length pat then None else Some j)"

text \<open>
  Inside a bracket, a hyphen makes a range unless it is the first character (after a
  leading \<^verbatim>\<open>!\<close>) or directly follows the end of a range. \<open>split_chunks\<close> cuts the
  bracket's text at the hyphens that make ranges: \<open>skip\<close> counts the characters still
  to pass before a hyphen is looked for, \<open>cur\<close> is the chunk being read.
\<close>

fun split_chunks :: "nat \<Rightarrow> string \<Rightarrow> string \<Rightarrow> string list" where
  "split_chunks skip cur [] = [cur]"
| "split_chunks skip cur (c # cs) =
     (if skip = 0 \<and> c = CHR ''-'' then cur # split_chunks 2 [] cs
      else split_chunks (skip - 1) (cur @ [c]) cs)"

text \<open>An empty last chunk stands for a hyphen at the end, which is literal.\<close>

definition close_chunks :: "string list \<Rightarrow> string list" where
  "close_chunks chunks =
     (if chunks \<noteq> [] \<and> last chunks = [] \<and> butlast chunks \<noteq> []
      then butlast (butlast chunks) @ [last (butlast chunks) @ ''-'']
      else chunks)"

text \<open>
  A range whose first character is above its last is empty and is removed, from the
  right to the left: the two chunks around it are joined, without those two characters.
\<close>

fun remove_empty_ranges :: "string list \<Rightarrow> string list" where
  "remove_empty_ranges [] = []"
| "remove_empty_ranges [c] = [c]"
| "remove_empty_ranges (c # cs) =
     (case remove_empty_ranges cs of
        [] \<Rightarrow> [c]
      | d # ds \<Rightarrow>
          if c \<noteq> [] \<and> d \<noteq> [] \<and> last c > hd d then (butlast c @ tl d) # ds
          else c # d # ds)"

text \<open>
  The set is then read as the regular-expression engine reads it: the chunks are
  joined by range hyphens (\<open>Dash\<close>), every other character is itself (\<open>Ch\<close>), a
  leading \<^verbatim>\<open>!\<close> negates the set, and a \<open>Dash\<close> between two items makes a range.
\<close>

datatype set_token = Ch char | Dash

fun chunk_tokens :: "string list \<Rightarrow> set_token list" where
  "chunk_tokens [] = []"
| "chunk_tokens [c] = map Ch c"
| "chunk_tokens (c # d # ds) = map Ch c @ Dash # chunk_tokens (d # ds)"

fun token_char :: "set_token \<Rightarrow> char" where
  "token_char (Ch c) = c"
| "token_char Dash = CHR ''-''"

fun parse_set :: "set_token list \<Rightarrow> set_item list" where
  "parse_set [] = []"
| "parse_set [t] = [Lit (token_char t)]"
| "parse_set [t, Dash] = [Lit (token_char t), Lit (CHR ''-'')]"
| "parse_set (t # Dash # u # ts) = Range (token_char t) (token_char u) # parse_set ts"
| "parse_set (t # u # ts) = Lit (token_char t) # parse_set (u # ts)"

definition bracket_atom :: "string \<Rightarrow> atom" where
  "bracket_atom stuff =
     (let chunks =
            (if CHR ''-'' \<notin> set stuff then [stuff]
             else remove_empty_ranges
                    (close_chunks
                       (split_chunks (if hd stuff = CHR ''!'' then 2 else 1) [] stuff)));
          tokens = chunk_tokens chunks
      in case tokens of
           Ch c # rest \<Rightarrow>
             if c = CHR ''!'' then CharSet True (parse_set rest)
             else CharSet False (parse_set tokens)
         | _ \<Rightarrow> CharSet False (parse_set tokens))"

text \<open>
  \<^verbatim>\<open>fnmatch.translate\<close>: \<open>res\<close> is the list of pieces built so far; consecutive
  stars are one star.
\<close>

function translate_from :: "atom list \<Rightarrow> string \<Rightarrow> atom list" where
  "translate_from res [] = res"
| "translate_from res (c # pat) =
     (if c = CHR ''*'' then
        translate_from (if res = [] \<or> last res \<noteq> STAR then res @ [STAR] else res) pat
      else if c = CHR ''?'' then translate_from (res @ [AnyChar]) pat
      else if c = CHR ''['' then
        (case bracket_end pat of
           None \<Rightarrow> translate_from (res @ [Literal (CHR ''['')]) pat
         | Some j \<Rightarrow> translate_from (res @ [bracket_atom (take j pat)]) (drop (Suc j) pat))
      else translate_from (res @ [Literal c]) pat)"
  by pat_completeness auto
termination
  by (relation "measure (\<lambda>(res, pat). length pat)") auto

definition translate :: "string \<Rightarrow> atom list" where
  "translate pat = translate_from [] pat"

fun item_ok :: "char \<Rightarrow> set_item \<Rightarrow> bool" where
  "item_ok x (Lit c) = (x = c)"
| "item_ok x (Range lo hi) = (lo \<le> x \<and> x \<le> hi)"

fun atom_ok :: "atom \<Rightarrow> char \<Rightarrow> bool" where
  "atom_ok STAR x = True"
| "atom_ok AnyChar x = True"
| "atom_ok (Literal c) x = (x = c)"
| "atom_ok (CharSet negated items) x = (negated \<noteq> list_ex (item_ok x) items)"

fun matches :: "atom list \<Rightarrow> string \<Rightarrow> bool" where
  "matches [] s = (s = [])"
| "matches (STAR # as) [] = matches as []"
| "matches (STAR # as) (c # cs) = (matches as (c # cs) \<or> matches (STAR # as) cs)"
| "matches (a # as) [] = False"
| "matches (a # as) (c # cs) = (atom_ok a c \<and> matches as cs)"

definition fnmatch :: "string \<Rightarrow> string \<Rightarrow> bool" where
  "fnmatch name pat = matches (translate pat) name"

section \<open>The policy check\<close>

text \<open>
  \<^verbatim>\<open>
  def _deny_check(abs_path: str) -> None:
      rel = os.path.relpath(abs_path, ROOT_DIR)
      for pat in DENY_GLOBS:
          if glob.fnmatch.fnmatch(rel, pat):
              raise PermissionError(f"Denied by policy: {pat}")

  def _allow_check(abs_path: str) -> None:
      rel = os.path.relpath(abs_path, ROOT_DIR)
      if not any(glob.fnmatch.fnmatch(rel, pat) for pat in ALLOW_GLOBS):
          raise PermissionError("Not allowed by policy")

  def _policy(abs_path: str) -> None:
      _deny_check(abs_path)
      _allow_check(abs_path)
  \<close>
  \<open>rel_to_root\<close> is the call \<^verbatim>\<open>os.path.relpath(abs_path, ROOT_DIR)\<close> that both
  checks start with.
\<close>

definition rel_to_root :: "config \<Rightarrow> string \<Rightarrow> error + string" where
  "rel_to_root cfg abs_path = relpath (getcwd cfg) abs_path (ROOT_DIR cfg)"

definition deny_check :: "config \<Rightarrow> string \<Rightarrow> error + unit" where
  "deny_check cfg abs_path =
     (case rel_to_root cfg abs_path of
        Inl e \<Rightarrow> Inl e
      | Inr rel \<Rightarrow>
          (case find (\<lambda>pat. fnmatch rel pat) (DENY_GLOBS cfg) of
             Some pat \<Rightarrow> Inl (PolicyDenied (Some pat))
           | None \<Rightarrow> Inr ()))"

definition allow_check :: "config \<Rightarrow> string \<Rightarrow> error + unit" where
  "allow_check cfg abs_path =
     (case rel_to_root cfg abs_path of
        Inl e \<Rightarrow> Inl e
      | Inr rel \<Rightarrow>
          if \<not> list_ex (\<lambda>pat. fnmatch rel pat) (ALLOW_GLOBS cfg)
          then Inl (PolicyDenied None)
          else Inr ())"

definition policy :: "config \<Rightarrow> string \<Rightarrow> error + unit" where
  "policy cfg abs_path =
     (case deny_check cfg abs_path of
        Inl e \<Rightarrow> Inl e
      | Inr _ \<Rightarrow> allow_check cfg abs_path)"

section \<open>Python values\<close>

text \<open>
  Every tool returns a \<^verbatim>\<open>Dict[str, Any]\<close>: an association list from keys to
  values. \<open>PMillis n\<close> is the float \<^verbatim>\<open>round(x, 3)\<close>, given in thousandths.
\<close>

datatype pyval =
    PNone
  | PBool bool
  | PInt int
  | PStr string
  | PMillis int
  | PList "pyval list"
  | PDict "(string \<times> pyval) list"

type_synonym pydict = "(string \<times> pyval) list"

text \<open>\<^verbatim>\<open>s[:n]\<close>: a negative \<open>n\<close> counts from the end.\<close>

definition slice_to :: "int \<Rightarrow> string \<Rightarrow> string" where
  "slice_to n s = (if 0 \<le> n then take (nat n) s else take (length s - nat (- n)) s)"

text \<open>\<^verbatim>\<open>oct(n)\<close>; \<open>oct_digits\<close> writes a number that is not negative.\<close>

function oct_digits :: "int \<Rightarrow> string" where
  "oct_digits n =
     (if n < 8 then [char_of (48 + n)]
      else oct_digits (n div 8) @ [char_of (48 + n mod 8)])"
  by pat_completeness auto
termination
  by (relation "measure nat") auto

definition oct :: "int \<Rightarrow> string" where
  "oct n = (if n < 0 then ''-0o'' @ oct_digits (- n) else ''0o'' @ oct_digits n)"

section \<open>The file system\<close>

text \<open>
  The state the tools act on is a file tree: a finite map, written as an association
  list, from the components of an absolute path (the root directory is \<open>[]\<close>) to a
  node. A node is a regular file with its bytes, a directory or a symbolic link with
  its target, together with the fields of \<^verbatim>\<open>os.lstat\<close> that the server reads.
  The library calls below act on this tree as the POSIX calls do on one file system
  that raises no permission or input/output failure. A path is read lexically
  (\<open>path_key\<close>); a symbolic link is followed when it is the last component of a
  path, and a chain of more than \<open>max_links\<close> links is a loop.
\<close>

datatype kind = File string | Dir | Symlink string

record node =
  kind :: kind
  st_size :: int
  st_mode :: int
  st_mtime :: int

type_synonym key = "string list"
type_synonym fs = "(key \<times> node) list"

text \<open>What the system gives a new node: the mode bits left by the umask, the size of an
  empty directory and the time of the call, in whole seconds.\<close>

record os_env =
  new_file_mode :: int
  new_dir_mode :: int
  new_dir_size :: int
  now :: int

definition path_key :: "string \<Rightarrow> string \<Rightarrow> key" where
  "path_key cwd p = filter (\<lambda>x. x \<noteq> []) (split_sep (abspath cwd p))"

definition key_path :: "key \<Rightarrow> string" where
  "key_path k = CHR ''/'' # sep_join k"

definition max_links :: nat where
  "max_links = 40"

fun resolve :: "nat \<Rightarrow> fs \<Rightarrow> key \<Rightarrow> key option" where
  "resolve 0 fs k =
     (case map_of fs k of
        None \<Rightarrow> Some k
      | Some n \<Rightarrow> (case kind n of Symlink t \<Rightarrow> None | _ \<Rightarrow> Some k))"
| "resolve (Suc fuel) fs k =
     (case map_of fs k of
        None \<Rightarrow> Some k
      | Some n \<Rightarrow>
          (case kind n of
             Symlink t \<Rightarrow> resolve fuel fs (path_key (key_path (butlast k)) t)
           | _ \<Rightarrow> Some k))"

text \<open>\<open>lstat_node\<close> looks at the entry itself, \<open>stat_node\<close> follows links.\<close>

definition lstat_node :: "fs \<Rightarrow> key \<Rightarrow> node option" where
  "lstat_node fs k = map_of fs k"

definition stat_node :: "fs \<Rightarrow> key \<Rightarrow> node option" where
  "stat_node fs k = (case resolve max_links fs k of None \<Rightarrow> None | Some k' \<Rightarrow> map_of fs k')"

definition is_dir_node :: "node option \<Rightarrow> bool" where
  "is_dir_node n = (case n of Some m \<Rightarrow> kind m = Dir | None \<Rightarrow> False)"

definition is_file_node :: "node option \<Rightarrow> bool" where
  "is_file_node n = (case n of Some m \<Rightarrow> (case kind m of File _ \<Rightarrow> True | _ \<Rightarrow> False) | None \<Rightarrow> False)"

definition is_link_node :: "node option \<Rightarrow> bool" where
  "is_link_node n = (case n of Some m \<Rightarrow> (case kind m of Symlink _ \<Rightarrow> True | _ \<Rightarrow> False) | None \<Rightarrow> False)"

text \<open>\<^verbatim>\<open>os.path.exists\<close>, \<^verbatim>\<open>isdir\<close>, \<^verbatim>\<open>isfile\<close> and \<^verbatim>\<open>islink\<close>.\<close>

definition exists :: "string \<Rightarrow> fs \<Rightarrow> string \<Rightarrow> bool" where
  "exists cwd fs p = (stat_node fs (path_key cwd p) \<noteq> None)"

definition isdir :: "string \<Rightarrow> fs \<Rightarrow> string \<Rightarrow> bool" where
  "isdir cwd fs p = is_dir_node (stat_node fs (path_key cwd p))"

definition isfile :: "string \<Rightarrow> fs \<Rightarrow> string \<Rightarrow> bool" where
  "isfile cwd fs p = is_file_node (stat_node fs (path_key cwd p))"

definition islink :: "string \<Rightarrow> fs \<Rightarrow> string \<Rightarrow> bool" where
  "islink cwd fs p = is_link_node (lstat_node fs (path_key cwd p))"

text \<open>\<^verbatim>\<open>os.lstat\<close>.\<close>

definition lstat :: "string \<Rightarrow> fs \<Rightarrow> string \<Rightarrow> error + node" where
  "lstat cwd fs p =
     (case lstat_node fs (path_key cwd p) of
        None \<Rightarrow> Inl (NotFound p)
      | Some n \<Rightarrow> Inr n)"

text \<open>\<^verbatim>\<open>os.listdir\<close>: the names of the entries of a directory.\<close>

definition children :: "fs \<Rightarrow> key \<Rightarrow> string list" where
  "children fs k = remdups (map (\<lambda>(k', n). last k') (filter (\<lambda>(k', n). k' \<noteq> [] \<and> butlast k' = k) fs))"

definition listdir :: "string \<Rightarrow> fs \<Rightarrow> string \<Rightarrow> error + string list" where
  "listdir cwd fs p =
     (case resolve max_links fs (path_key cwd p) of
        None \<Rightarrow> Inl (OSError p)
      | Some k \<Rightarrow>
          (case map_of fs k of
             None \<Rightarrow> Inl (NotFound p)
           | Some n \<Rightarrow> if kind n = Dir then Inr (children fs k) else Inl (NotADirectory p)))"

definition new_dir :: "os_env \<Rightarrow> node" where
  "new_dir env = \<lparr> kind = Dir, st_size = new_dir_size env, st_mode = new_dir_mode env, st_mtime = now env \<rparr>"

definition new_file :: "os_env \<Rightarrow> string \<Rightarrow> node" where
  "new_file env bytes =
     \<lparr> kind = File bytes, st_size = int (length bytes), st_mode = new_file_mode env,
       st_mtime = now env \<rparr>"

text \<open>\<^verbatim>\<open>os.mkdir\<close>.\<close>

definition os_mkdir :: "os_env \<Rightarrow> string \<Rightarrow> fs \<Rightarrow> string \<Rightarrow> (error + unit) \<times> fs" where
  "os_mkdir env cwd fs p =
     (let k = path_key cwd p in
      if k = [] \<or> lstat_node fs k \<noteq> None then (Inl (AlreadyExists p), fs)
      else if stat_node fs (butlast k) = None then (Inl (NotFound p), fs)
      else if \<not> is_dir_node (stat_node fs (butlast k)) then (Inl (NotADirectory p), fs)
      else (Inr (), fs @ [(k, new_dir env)]))"

text \<open>
  \<^verbatim>\<open>os.makedirs(name, exist_ok=...)\<close>: the missing directories are made from the
  top; \<open>done\<close> are the components already passed. The directories made before a
  failure stay.
\<close>

fun makedirs_from :: "os_env \<Rightarrow> bool \<Rightarrow> string \<Rightarrow> key \<Rightarrow> key \<Rightarrow> fs \<Rightarrow> (error + unit) \<times> fs" where
  "makedirs_from env exist_ok p done [] fs = (Inr (), fs)"
| "makedirs_from env exist_ok p done (c # cs) fs =
     (let k = done @ [c] in
      if is_dir_node (stat_node fs k) then
        (if cs = [] \<and> \<not> exist_ok then (Inl (AlreadyExists p), fs)
         else makedirs_from env exist_ok p k cs fs)
      else if lstat_node fs k \<noteq> None then
        (if cs = [] then (Inl (AlreadyExists p), fs) else (Inl (NotADirectory p), fs))
      else makedirs_from env exist_ok p k cs (fs @ [(k, new_dir env)]))"

definition makedirs :: "os_env \<Rightarrow> string \<Rightarrow> fs \<Rightarrow> string \<Rightarrow> bool \<Rightarrow> (error + unit) \<times> fs" where
  "makedirs env cwd fs p exist_ok =
     (let k = path_key cwd p in
      if k = [] then (if exist_ok then (Inr (), fs) else (Inl (AlreadyExists p), fs))
      else makedirs_from env exist_ok p [] k fs)"

text \<open>\<^verbatim>\<open>os.remove\<close>: unlinks a file or a link, never a directory.\<close>

definition os_remove :: "string \<Rightarrow> fs \<Rightarrow> string \<Rightarrow> (error + unit) \<times> fs" where
  "os_remove cwd fs p =
     (let k = path_key cwd p in
      case lstat_node fs k of
        None \<Rightarrow> (Inl (NotFound p), fs)
      | Some n \<Rightarrow>
          if kind n = Dir then (Inl (IsADirectory p), fs)
          else (Inr (), AList.delete k fs))"

text \<open>\<^verbatim>\<open>shutil.rmtree\<close>: removes a directory and everything below it.\<close>

definition below :: "key \<Rightarrow> key \<Rightarrow> bool" where
  "below k k' = (take (length k) k' = k)"

definition rmtree :: "string \<Rightarrow> fs \<Rightarrow> string \<Rightarrow> (error + unit) \<times> fs" where
  "rmtree cwd fs p =
     (let k = path_key cwd p in
      case lstat_node fs k of
        None \<Rightarrow> (Inl (NotFound p), fs)
      | Some n \<Rightarrow>
          (case kind n of
             Symlink _ \<Rightarrow> (Inl (OSError ''Cannot call rmtree on a symbolic link''), fs)
           | File _ \<Rightarrow> (Inl (NotADirectory p), fs)
           | Dir \<Rightarrow> (Inr (), filter (\<lambda>(k', n). \<not> below k k') fs)))"

text \<open>
  \<^verbatim>\<open>shutil.move(src, dst)\<close>: into \<open>dst\<close> when that is a directory, onto \<open>dst\<close>
  otherwise; the entry and all below it are renamed.
\<close>

definition rename_tree :: "key \<Rightarrow> key \<Rightarrow> fs \<Rightarrow> fs" where
  "rename_tree src dst fs =
     map (\<lambda>(k', n). if below src k' then (dst @ drop (length src) k', n) else (k', n))
       (filter (\<lambda>(k', n). below src k' \<or> \<not> below dst k') fs)"

definition shutil_move :: "string \<Rightarrow> fs \<Rightarrow> string \<Rightarrow> string \<Rightarrow> (error + unit) \<times> fs" where
  "shutil_move cwd fs src dst =
     (let ks = path_key cwd src;
          into = isdir cwd fs dst;
          real_dst = (if into then join dst (basename src) else dst);
          kd = path_key cwd real_dst
      in if into \<and> exists cwd fs real_dst \<and> kd \<noteq> ks
           then (Inl (OSError ''Destination path already exists''), fs)
         else if lstat_node fs ks = None then (Inl (NotFound src), fs)
         else if kd = ks then (Inr (), fs)
         else if below ks kd then (Inl (OSError ''Cannot move a directory into itself''), fs)
         else if stat_node fs (butlast kd) = None then (Inl (NotFound real_dst), fs)
         else if \<not> is_dir_node (stat_node fs (butlast kd)) then (Inl (NotADirectory real_dst), fs)
         else if is_dir_node (lstat_node fs ks) \<and> lstat_node fs kd \<noteq> None
                 \<and> \<not> is_dir_node (lstat_node fs kd)
           then (Inl (AlreadyExists real_dst), fs)
         else if \<not> is_dir_node (lstat_node fs ks) \<and> is_dir_node (lstat_node fs kd)
           then (Inl (IsADirectory real_dst), fs)
         else if is_dir_node (lstat_node fs kd) \<and> children fs kd \<noteq> []
           then (Inl (OSError ''Directory not empty''), fs)
         else (Inr (), rename_tree ks kd fs))"

text \<open>
  Text encodings. A \<open>codec\<close> gives the bytes of a text and the text of some bytes,
  when there are any; an encoding name that Python does not know is \<open>None\<close>.
\<close>

record codec =
  encode :: "string \<Rightarrow> string option"
  decode :: "string \<Rightarrow> string option"

text \<open>
  \<^verbatim>\<open>io.open(ap, "w", encoding=...)\<close>: the file is made, or emptied, before the
  encoding is looked up.
\<close>

definition open_w :: "os_env \<Rightarrow> string \<Rightarrow> fs \<Rightarrow> string \<Rightarrow> (error + key) \<times> fs" where
  "open_w env cwd fs p =
     (case resolve max_links fs (path_key cwd p) of
        None \<Rightarrow> (Inl (OSError p), fs)
      | Some k \<Rightarrow>
          (case map_of fs k of
             Some n \<Rightarrow>
               if kind n = Dir then (Inl (IsADirectory p), fs)
               else (Inr k, AList.update k (n\<lparr> kind := File [], st_size := 0, st_mtime := now env \<rparr>) fs)
           | None \<Rightarrow>
               if k = [] then (Inl (IsADirectory p), fs)
               else if stat_node fs (butlast k) = None then (Inl (NotFound p), fs)
               else if \<not> is_dir_node (stat_node fs (butlast k)) then (Inl (NotADirectory p), fs)
               else (Inr k, fs @ [(k, new_file env [])])))"

definition write_bytes :: "os_env \<Rightarrow> key \<Rightarrow> string \<Rightarrow> fs \<Rightarrow> fs" where
  "write_bytes env k bytes fs =
     (case map_of fs k of
        None \<Rightarrow> fs
      | Some n \<Rightarrow> AList.update k (n\<lparr> kind := File bytes, st_size := int (length bytes), st_mtime := now env \<rparr>) fs)"

definition read_bytes :: "string \<Rightarrow> fs \<Rightarrow> string \<Rightarrow> error + string" where
  "read_bytes cwd fs p =
     (case stat_node fs (path_key cwd p) of
        None \<Rightarrow> Inl (NotFound p)
      | Some n \<Rightarrow> (case kind n of File bytes \<Rightarrow> Inr bytes | _ \<Rightarrow> Inl (IsADirectory p)))"

section \<open>The tools\<close>

text \<open>
  Every tool takes the configuration, the environment and the file tree, and returns
  its dictionary or the exception it raises, together with the file tree it leaves.

  \<^verbatim>\<open>
  def ensure_root() -> None:
      os.makedirs(ROOT_DIR, exist_ok=True)
  \<close>
\<close>

definition ensure_root :: "config \<Rightarrow> os_env \<Rightarrow> fs \<Rightarrow> (error + unit) \<times> fs" where
  "ensure_root cfg env fs = makedirs env (getcwd cfg) fs (ROOT_DIR cfg) True"

text \<open>
  \<^verbatim>\<open>ap = _abs(path); _policy(ap)\<close>, the two checks most tools start with.
\<close>

definition checked_path :: "config \<Rightarrow> string \<Rightarrow> error + string" where
  "checked_path cfg path =
     (case abs' cfg path of
        Inl e \<Rightarrow> Inl e
      | Inr ap \<Rightarrow> (case policy cfg ap of Inl e \<Rightarrow> Inl e | Inr _ \<Rightarrow> Inr ap))"

text \<open>
  The fields that an entry of \<^verbatim>\<open>list_dir\<close> and the result of \<^verbatim>\<open>stat\<close> share.
  \<^verbatim>\<open>st.st_mode & 0o777\<close> is the mode modulo 512; \<open>st_mtime\<close> holds
  \<^verbatim>\<open>int(st.st_mtime)\<close>.
\<close>

definition stat_fields :: "string \<Rightarrow> fs \<Rightarrow> string \<Rightarrow> node \<Rightarrow> pydict" where
  "stat_fields cwd fs p st =
     [(''is_dir'', PBool (isdir cwd fs p)),
      (''size'', PInt (st_size st)),
      (''mode'', PStr (oct (st_mode st mod 512))),
      (''mtime'', PInt (st_mtime st))]"

text \<open>
  \<^verbatim>\<open>
  for name in sorted(os.listdir(ap)):
      if not include_hidden and name.startswith("."):
          continue
      if not glob.fnmatch.fnmatch(name, glob_pattern):
          continue
      fp = os.path.join(ap, name)
      try:
          _policy(fp)
          st = os.lstat(fp)
          out.append({"name": name, "is_dir": os.path.isdir(fp), "size": st.st_size,
                      "mode": oct(st.st_mode & 0o777), "mtime": int(st.st_mtime)})
      except PermissionError:
          continue
  \<close>
  \<open>dir_entry\<close> is the body of the \<^verbatim>\<open>try\<close>, \<open>list_entries\<close> the loop.
\<close>

definition dir_entry :: "config \<Rightarrow> fs \<Rightarrow> string \<Rightarrow> string \<Rightarrow> error + pyval" where
  "dir_entry cfg fs ap name =
     (let fp = join ap name in
      case policy cfg fp of
        Inl e \<Rightarrow> Inl e
      | Inr _ \<Rightarrow>
          (case lstat (getcwd cfg) fs fp of
             Inl e \<Rightarrow> Inl e
           | Inr st \<Rightarrow> Inr (PDict ((''name'', PStr name) # stat_fields (getcwd cfg) fs fp st))))"

fun list_entries :: "config \<Rightarrow> fs \<Rightarrow> string \<Rightarrow> string \<Rightarrow> bool \<Rightarrow> string list \<Rightarrow> error + pyval list" where
  "list_entries cfg fs ap glob_pattern include_hidden [] = Inr []"
| "list_entries cfg fs ap glob_pattern include_hidden (name # names) =
     (if \<not> include_hidden \<and> startswith name ''.''
        then list_entries cfg fs ap glob_pattern include_hidden names
      else if \<not> fnmatch name glob_pattern
        then list_entries cfg fs ap glob_pattern include_hidden names
      else
        (case dir_entry cfg fs ap name of
           Inl e \<Rightarrow>
             if is_PermissionError e
             then list_entries cfg fs ap glob_pattern include_hidden names
             else Inl e
         | Inr entry \<Rightarrow>
             (case list_entries cfg fs ap glob_pattern include_hidden names of
                Inl e \<Rightarrow> Inl e
              | Inr out \<Rightarrow> Inr (entry # out))))"

definition list_dir :: "config \<Rightarrow> os_env \<Rightarrow> string \<Rightarrow> string \<Rightarrow> bool \<Rightarrow> fs \<Rightarrow> (error + pydict) \<times> fs" where
  "list_dir cfg env path glob_pattern include_hidden fs0 =
     (case ensure_root cfg env fs0 of
        (Inl e, fs) \<Rightarrow> (Inl e, fs)
      | (Inr _, fs) \<Rightarrow>
     (case abs' cfg path of
        Inl e \<Rightarrow> (Inl e, fs)
      | Inr ap \<Rightarrow>
          if \<not> isdir (getcwd cfg) fs ap then (Inl (NotFound ''Not a directory''), fs)
          else
            (case listdir (getcwd cfg) fs ap of
               Inl e \<Rightarrow> (Inl e, fs)
             | Inr names \<Rightarrow>
            (case list_entries cfg fs ap glob_pattern include_hidden (sort names) of
               Inl e \<Rightarrow> (Inl e, fs)
             | Inr out \<Rightarrow>
            (case rel_to_root cfg ap of
               Inl e \<Rightarrow> (Inl e, fs)
             | Inr rel \<Rightarrow> (Inr [(''path'', PStr rel), (''entries'', PList out)], fs))))))"

text \<open>
  \<^verbatim>\<open>
  def read_text(path: str, encoding: str = "utf-8") -> Dict[str, Any]:
      ensure_root()
      ap = _abs(path); _policy(ap)
      if not os.path.isfile(ap):
          raise FileNotFoundError("File not found")
      with io.open(ap, "r", encoding=encoding, errors="strict") as f:
          return {"path": os.path.relpath(ap, ROOT_DIR), "content": f.read()}
  \<close>
\<close>

definition read_text :: "config \<Rightarrow> os_env \<Rightarrow> string \<Rightarrow> codec option \<Rightarrow> fs \<Rightarrow> (error + pydict) \<times> fs" where
  "read_text cfg env path encoding fs0 =
     (case ensure_root cfg env fs0 of
        (Inl e, fs) \<Rightarrow> (Inl e, fs)
      | (Inr _, fs) \<Rightarrow>
     (case checked_path cfg path of
        Inl e \<Rightarrow> (Inl e, fs)
      | Inr ap \<Rightarrow>
          if \<not> isfile (getcwd cfg) fs ap then (Inl (NotFound ''File not found''), fs)
          else
            (case encoding of
               None \<Rightarrow> (Inl (LookupError ''unknown encoding''), fs)
             | Some c \<Rightarrow>
            (case rel_to_root cfg ap of
               Inl e \<Rightarrow> (Inl e, fs)
             | Inr rel \<Rightarrow>
            (case read_bytes (getcwd cfg) fs ap of
               Inl e \<Rightarrow> (Inl e, fs)
             | Inr bytes \<Rightarrow>
            (case decode c bytes of
               None \<Rightarrow> (Inl (UnicodeError ''cannot decode''), fs)
             | Some content \<Rightarrow> (Inr [(''path'', PStr rel), (''content'', PStr content)], fs)))))))"

text \<open>
  \<^verbatim>\<open>
  def write_text(path, content, create_dirs=True, overwrite=True, encoding="utf-8"):
      ensure_root()
      ap = _abs(path); _policy(ap)
      d = os.path.dirname(ap)
      if create_dirs:
          os.makedirs(d, exist_ok=True)
      if os.path.exists(ap) and not overwrite:
          raise FileExistsError("File exists and overwrite=False")
      with io.open(ap, "w", encoding=encoding) as f:
          f.write(content)
      return {"written": True, "path": os.path.relpath(ap, ROOT_DIR),
              "bytes": len(content.encode(encoding))}
  \<close>
\<close>

definition write_text ::
  "config \<Rightarrow> os_env \<Rightarrow> string \<Rightarrow> string \<Rightarrow> bool \<Rightarrow> bool \<Rightarrow> codec option \<Rightarrow> fs \<Rightarrow> (error + pydict) \<times> fs" where
  "write_text cfg env path content create_dirs overwrite encoding fs0 =
     (case ensure_root cfg env fs0 of
        (Inl e, fs) \<Rightarrow> (Inl e, fs)
      | (Inr _, fs) \<Rightarrow>
     (case checked_path cfg path of
        Inl e \<Rightarrow> (Inl e, fs)
      | Inr ap \<Rightarrow>
     (case (if create_dirs then makedirs env (getcwd cfg) fs (dirname ap) True else (Inr (), fs)) of
        (Inl e, fs1) \<Rightarrow> (Inl e, fs1)
      | (Inr _, fs1) \<Rightarrow>
          if exists (getcwd cfg) fs1 ap \<and> \<not> overwrite
          then (Inl (AlreadyExists ''File exists and overwrite=False''), fs1)
          else
            (case open_w env (getcwd cfg) fs1 ap of
               (Inl e, fs2) \<Rightarrow> (Inl e, fs2)
             | (Inr k, fs2) \<Rightarrow>
            (case encoding of
               None \<Rightarrow> (Inl (LookupError ''unknown encoding''), fs2)
             | Some c \<Rightarrow>
            (case encode c content of
               None \<Rightarrow> (Inl (UnicodeError ''cannot encode''), fs2)
             | Some bytes \<Rightarrow>
            (case rel_to_root cfg ap of
               Inl e \<Rightarrow> (Inl e, write_bytes env k bytes fs2)
             | Inr rel \<Rightarrow>
                 (Inr [(''written'', PBool True), (''path'', PStr rel),
                       (''bytes'', PInt (int (length bytes)))],
                  write_bytes env k bytes fs2))))))))"

text \<open>
  \<^verbatim>\<open>
  def mkdir(path: str, parents: bool = True, exist_ok: bool = True) -> Dict[str, Any]:
      ensure_root()
      ap = _abs(path); _policy(ap)
      if parents:
          os.makedirs(ap, exist_ok=exist_ok)
      else:
          os.mkdir(ap)
      return {"created": True, "path": os.path.relpath(ap, ROOT_DIR)}
  \<close>
\<close>

definition mkdir :: "config \<Rightarrow> os_env \<Rightarrow> string \<Rightarrow> bool \<Rightarrow> bool \<Rightarrow> fs \<Rightarrow> (error + pydict) \<times> fs" where
  "mkdir cfg env path parents exist_ok fs0 =
     (case ensure_root cfg env fs0 of
        (Inl e, fs) \<Rightarrow> (Inl e, fs)
      | (Inr _, fs) \<Rightarrow>
     (case checked_path cfg path of
        Inl e \<Rightarrow> (Inl e, fs)
      | Inr ap \<Rightarrow>
     (case (if parents then makedirs env (getcwd cfg) fs ap exist_ok
            else os_mkdir env (getcwd cfg) fs ap) of
        (Inl e, fs1) \<Rightarrow> (Inl e, fs1)
      | (Inr _, fs1) \<Rightarrow>
     (case rel_to_root cfg ap of
        Inl e \<Rightarrow> (Inl e, fs1)
      | Inr rel \<Rightarrow> (Inr [(''created'', PBool True), (''path'', PStr rel)], fs1)))))"

text \<open>
  \<^verbatim>\<open>
  def mv(src: str, dst: str, overwrite: bool = False) -> Dict[str, Any]:
      ensure_root()
      aps = _abs(src); _policy(aps)
      apd = _abs(dst); _policy(apd)
      os.makedirs(os.path.dirname(apd), exist_ok=True)
      if os.path.exists(apd) and not overwrite:
          raise FileExistsError("Destination exists (overwrite=False)")
      if overwrite and os.path.exists(apd):
          if os.path.isdir(apd) and not os.path.islink(apd):
              shutil.rmtree(apd)
          else:
              os.remove(apd)
      shutil.move(aps, apd)
      return {"moved": True, "src": os.path.relpath(aps, ROOT_DIR),
              "dst": os.path.relpath(apd, ROOT_DIR)}
  \<close>
\<close>

definition mv :: "config \<Rightarrow> os_env \<Rightarrow> string \<Rightarrow> string \<Rightarrow> bool \<Rightarrow> fs \<Rightarrow> (error + pydict) \<times> fs" where
  "mv cfg env src dst overwrite fs0 =
     (case ensure_root cfg env fs0 of
        (Inl e, fs) \<Rightarrow> (Inl e, fs)
      | (Inr _, fs) \<Rightarrow>
     (case checked_path cfg src of
        Inl e \<Rightarrow> (Inl e, fs)
      | Inr aps \<Rightarrow>
     (case checked_path cfg dst of
        Inl e \<Rightarrow> (Inl e, fs)
      | Inr apd \<Rightarrow>
     (case makedirs env (getcwd cfg) fs (dirname apd) True of
        (Inl e, fs1) \<Rightarrow> (Inl e, fs1)
      | (Inr _, fs1) \<Rightarrow>
          if exists (getcwd cfg) fs1 apd \<and> \<not> overwrite
          then (Inl (AlreadyExists ''Destination exists (overwrite=False)''), fs1)
          else
            (case (if overwrite \<and> exists (getcwd cfg) fs1 apd then
                     (if isdir (getcwd cfg) fs1 apd \<and> \<not> islink (getcwd cfg) fs1 apd
                      then rmtree (getcwd cfg) fs1 apd
                      else os_remove (getcwd cfg) fs1 apd)
                   else (Inr (), fs1)) of
               (Inl e, fs2) \<Rightarrow> (Inl e, fs2)
             | (Inr _, fs2) \<Rightarrow>
            (case shutil_move (getcwd cfg) fs2 aps apd of
               (Inl e, fs3) \<Rightarrow> (Inl e, fs3)
             | (Inr _, fs3) \<Rightarrow>
            (case rel_to_root cfg aps of
               Inl e \<Rightarrow> (Inl e, fs3)
             | Inr rel_src \<Rightarrow>
            (case rel_to_root cfg apd of
               Inl e \<Rightarrow> (Inl e, fs3)
             | Inr rel_dst \<Rightarrow>
                 (Inr [(''moved'', PBool True), (''src'', PStr rel_src), (''dst'', PStr rel_dst)],
                  fs3)))))))))"

text \<open>
  \<^verbatim>\<open>
  def rm(path: str, recursive: bool = False) -> Dict[str, Any]:
      ensure_root()
      ap = _abs(path); _policy(ap)
      if os.path.isdir(ap) and not os.path.islink(ap):
          if not recursive:
              raise IsADirectoryError("Use recursive=True for directories")
          shutil.rmtree(ap)
      else:
          os.remove(ap)
      return {"removed": True, "path": os.path.relpath(ap, ROOT_DIR)}
  \<close>
\<close>

definition rm :: "config \<Rightarrow> os_env \<Rightarrow> string \<Rightarrow> bool \<Rightarrow> fs \<Rightarrow> (error + pydict) \<times> fs" where
  "rm cfg env path recursive fs0 =
     (case ensure_root cfg env fs0 of
        (Inl e, fs) \<Rightarrow> (Inl e, fs)
      | (Inr _, fs) \<Rightarrow>
     (case checked_path cfg path of
        Inl e \<Rightarrow> (Inl e, fs)
      | Inr ap \<Rightarrow>
     (case (if isdir (getcwd cfg) fs ap \<and> \<not> islink (getcwd cfg) fs ap then
              (if \<not> recursive
               then (Inl (IsADirectory ''Use recursive=True for directories''), fs)
               else rmtree (getcwd cfg) fs ap)
            else os_remove (getcwd cfg) fs ap) of
        (Inl e, fs1) \<Rightarrow> (Inl e, fs1)
      | (Inr _, fs1) \<Rightarrow>
     (case rel_to_root cfg ap of
        Inl e \<Rightarrow> (Inl e, fs1)
      | Inr rel \<Rightarrow> (Inr [(''removed'', PBool True), (''path'', PStr rel)], fs1)))))"

text \<open>
  \<^verbatim>\<open>
  def stat(path: str) -> Dict[str, Any]:
      ensure_root()
      ap = _abs(path); _policy(ap)
      st = os.lstat(ap)
      return {"path": os.path.relpath(ap, ROOT_DIR), "is_dir": os.path.isdir(ap), ...}
  \<close>
\<close>

definition stat :: "config \<Rightarrow> os_env \<Rightarrow> string \<Rightarrow> fs \<Rightarrow> (error + pydict) \<times> fs" where
  "stat cfg env path fs0 =
     (case ensure_root cfg env fs0 of
        (Inl e, fs) \<Rightarrow> (Inl e, fs)
      | (Inr _, fs) \<Rightarrow>
     (case checked_path cfg path of
        Inl e \<Rightarrow> (Inl e, fs)
      | Inr ap \<Rightarrow>
     (case lstat (getcwd cfg) fs ap of
        Inl e \<Rightarrow> (Inl e, fs)
      | Inr st \<Rightarrow>
     (case rel_to_root cfg ap of
        Inl e \<Rightarrow> (Inl e, fs)
      | Inr rel \<Rightarrow> (Inr ((''path'', PStr rel) # stat_fields (getcwd cfg) fs ap st), fs)))))"

section \<open>Running a command\<close>

text \<open>
  What the child process does is not the server's: it is a parameter \<open>exec\<close>, which
  gives, for an argument vector, a working directory, a timeout and a file tree, how
  the calls on the process end and the file tree the child leaves.
  \<^item> \<open>SpawnFails msg\<close>: \<^verbatim>\<open>subprocess.Popen\<close> raises (the binary is missing, say);
  \<^item> \<open>Exits rc out err ms\<close>: \<^verbatim>\<open>communicate\<close> returns within the timeout, and
    \<open>ms\<close> thousandths of a second have passed since the start;
  \<^item> \<open>CommunicateFails msg\<close>: \<^verbatim>\<open>communicate\<close> raises another exception than
    \<^verbatim>\<open>TimeoutExpired\<close> (the output is not text in the locale's encoding, say);
  \<^item> \<open>TimesOut drained\<close>: \<^verbatim>\<open>communicate\<close> raises \<^verbatim>\<open>TimeoutExpired\<close>; after the
    kill, the second \<^verbatim>\<open>communicate\<close> returns the output captured
    (\<open>Inr (out, err)\<close>) or raises in its turn (\<open>Inl msg\<close>).

  The calls the server makes on the process are recorded in the order it makes them.
\<close>

datatype proc_behaviour =
    SpawnFails string
  | Exits int string string int
  | CommunicateFails string
  | TimesOut "string + (string \<times> string)"

datatype proc_call =
    Popen "string list" string
  | Communicate "int option"
  | Kill

type_synonym exec = "string list \<Rightarrow> string \<Rightarrow> int \<Rightarrow> fs \<Rightarrow> proc_behaviour \<times> fs"

text \<open>
  \<^verbatim>\<open>
  def run(cmd, args=None, cwd=".", timeout_sec=RUN_TIMEOUT_SEC):
      if not ENABLE_RUN_COMMANDS:
          raise PermissionError("run() is disabled by server policy")
      ensure_root()
      ap_cwd = _abs(cwd); _policy(ap_cwd)
      base = os.path.basename(cmd)
      prefix = COMMAND_ALLOWLIST.get(base)
      if prefix is None:
          raise PermissionError(f"Command '{base}' not in allowlist")
      final_args = list(args or [])
      if not final_args[:len(prefix)] == prefix:
          raise PermissionError(f"Args must start with {prefix} for '{base}'")
      argv = [cmd] + final_args
      start = time.time()
      try:
          proc = subprocess.Popen(argv, cwd=ap_cwd, stdout=PIPE, stderr=PIPE, text=True, shell=False)
          try:
              out, err = proc.communicate(timeout=timeout_sec)
          except subprocess.TimeoutExpired:
              proc.kill()
              out, err = proc.communicate()
              return {"ok": False, "error": "timeout", "stdout": (out or "")[:RUN_MAX_STDOUT],
                      "stderr": (err or "")[:RUN_MAX_STDOUT], "rc": None}
          return {"ok": proc.returncode == 0, "rc": proc.returncode,
                  "stdout": (out or "")[:RUN_MAX_STDOUT], "stderr": (err or "")[:RUN_MAX_STDOUT],
                  "elapsed_sec": round(time.time() - start, 3)}
      except Exception as e:
          return {"ok": False, "error": str(e)}
  \<close>
  \<open>run_process\<close> is the outer \<^verbatim>\<open>try\<close>.
\<close>

definition run_process ::
  "config \<Rightarrow> exec \<Rightarrow> string list \<Rightarrow> string \<Rightarrow> int \<Rightarrow> fs \<Rightarrow> pydict \<times> fs \<times> proc_call list" where
  "run_process cfg exec argv ap_cwd timeout_sec fs =
     (case exec argv ap_cwd timeout_sec fs of
        (SpawnFails msg, fs') \<Rightarrow>
          ([(''ok'', PBool False), (''error'', PStr msg)], fs', [Popen argv ap_cwd])
      | (Exits rc out err ms, fs') \<Rightarrow>
          ([(''ok'', PBool (rc = 0)), (''rc'', PInt rc),
            (''stdout'', PStr (slice_to (RUN_MAX_STDOUT cfg) out)),
            (''stderr'', PStr (slice_to (RUN_MAX_STDOUT cfg) err)),
            (''elapsed_sec'', PMillis ms)],
           fs', [Popen argv ap_cwd, Communicate (Some timeout_sec)])
      | (CommunicateFails msg, fs') \<Rightarrow>
          ([(''ok'', PBool False), (''error'', PStr msg)], fs',
           [Popen argv ap_cwd, Communicate (Some timeout_sec)])
      | (TimesOut (Inr (out, err)), fs') \<Rightarrow>
          ([(''ok'', PBool False), (''error'', PStr ''timeout''),
            (''stdout'', PStr (slice_to (RUN_MAX_STDOUT cfg) out)),
            (''stderr'', PStr (slice_to (RUN_MAX_STDOUT cfg) err)),
            (''rc'', PNone)],
           fs', [Popen argv ap_cwd, Communicate (Some timeout_sec), Kill, Communicate None])
      | (TimesOut (Inl msg), fs') \<Rightarrow>
          ([(''ok'', PBool False), (''error'', PStr msg)], fs',
           [Popen argv ap_cwd, Communicate (Some timeout_sec), Kill, Communicate None]))"

definition run ::
  "config \<Rightarrow> os_env \<Rightarrow> exec \<Rightarrow> string \<Rightarrow> string list option \<Rightarrow> string \<Rightarrow> int \<Rightarrow> fs
     \<Rightarrow> (error + pydict) \<times> fs \<times> proc_call list" where
  "run cfg env exec cmd args cwd timeout_sec fs0 =
     (if \<not> ENABLE_RUN_COMMANDS cfg then (Inl FeatureDisabled, fs0, [])
      else
     (case ensure_root cfg env fs0 of
        (Inl e, fs) \<Rightarrow> (Inl e, fs, [])
      | (Inr _, fs) \<Rightarrow>
     (case checked_path cfg cwd of
        Inl e \<Rightarrow> (Inl e, fs, [])
      | Inr ap_cwd \<Rightarrow>
          (let base = basename cmd in
           case map_of (COMMAND_ALLOWLIST cfg) base of
             None \<Rightarrow> (Inl (CommandNotAllowed base), fs, [])
           | Some prefix \<Rightarrow>
               (let final_args = (case args of None \<Rightarrow> [] | Some a \<Rightarrow> a) in
                if \<not> (take (length prefix) final_args = prefix)
                then (Inl (ArgumentPrefixViolation prefix base), fs, [])
                else
                  (case run_process cfg exec (cmd # final_args) ap_cwd timeout_sec fs of
                     (result, fs', calls) \<Rightarrow> (Inr result, fs', calls)))))))"

section \<open>The tool interface\<close>

text \<open>A call of one of the eight tools with its arguments, and what it does.\<close>

datatype request =
    ListDir string string bool
  | ReadText string "codec option"
  | WriteText string string bool bool "codec option"
  | MkDir string bool bool
  | Mv string string bool
  | Rm string bool
  | Stat string
  | Run string "string list option" string int

fun call_tool :: "config \<Rightarrow> os_env \<Rightarrow> exec \<Rightarrow> request \<Rightarrow> fs \<Rightarrow> (error + pydict) \<times> fs" where
  "call_tool cfg env exec (ListDir path glob_pattern include_hidden) fs =
     list_dir cfg env path glob_pattern include_hidden fs"
| "call_tool cfg env exec (ReadText path encoding) fs = read_text cfg env path encoding fs"
| "call_tool cfg env exec (WriteText path content create_dirs overwrite encoding) fs =
     write_text cfg env path content create_dirs overwrite encoding fs"
| "call_tool cfg env exec (MkDir path parents exist_ok) fs = mkdir cfg env path parents exist_ok fs"
| "call_tool cfg env exec (Mv src dst overwrite) fs = mv cfg env src dst overwrite fs"
| "call_tool cfg env exec (Rm path recursive) fs = rm cfg env path recursive fs"
| "call_tool cfg env exec (Stat path) fs = stat cfg env path fs"
| "call_tool cfg env exec (Run cmd args cwd timeout_sec) fs =
     (case run cfg env exec cmd args cwd timeout_sec fs of (r, fs', calls) \<Rightarrow> (r, fs'))"

text \<open>The five boundary violations.\<close>

fun boundary_violation :: "error \<Rightarrow> bool" where
  "boundary_violation PathEscape = True"
| "boundary_violation (PolicyDenied _) = True"
| "boundary_violation FeatureDisabled = True"
| "boundary_violation (CommandNotAllowed _) = True"
| "boundary_violation (ArgumentPrefixViolation _ _) = True"
| "boundary_violation _ = False"

section \<open>An example installation\<close>

text \<open>
  The configuration of the source with the root \<^verbatim>\<open>/sandbox\<close> and \<^verbatim>\<open>run\<close>
  enabled, and a file tree under that root:
  \<^verbatim>\<open>
  /sandbox/project/readme.md
  /sandbox/project/keys/id_rsa
  /sandbox/project/keys/notes.txt
  /sandbox/project/node_modules/pkg/index.js
  /sandbox/project/src/main.py
  \<close>
\<close>

definition example_config :: config where
  "example_config = default_config ''/'' ''/sandbox'' True"

definition example_env :: os_env where
  "example_env = \<lparr> new_file_mode = 33188, new_dir_mode = 16877, new_dir_size = 4096, now = 200 \<rparr>"

definition example_dir :: node where
  "example_dir = \<lparr> kind = Dir, st_size = 4096, st_mode = 16877, st_mtime = 100 \<rparr>"

definition example_file :: "string \<Rightarrow> node" where
  "example_file bytes =
     \<lparr> kind = File bytes, st_size = int (length bytes), st_mode = 33188, st_mtime = 100 \<rparr>"

definition example_tree :: fs where
  "example_tree =
     [([], example_dir),
      ([''sandbox''], example_dir),
      ([''sandbox'', ''project''], example_dir),
      ([''sandbox'', ''project'', ''readme.md''], example_file ''hello''),
      ([''sandbox'', ''project'', ''keys''], example_dir),
      ([''sandbox'', ''project'', ''keys'', ''id_rsa''], example_file ''secret''),
      ([''sandbox'', ''project'', ''keys'', ''notes.txt''], example_file ''notes''),
      ([''sandbox'', ''project'', ''node_modules''], example_dir),
      ([''sandbox'', ''project'', ''node_modules'', ''pkg''], example_dir),
      ([''sandbox'', ''project'', ''node_modules'', ''pkg'', ''index.js''], example_file ''js''),
      ([''sandbox'', ''project'', ''src''], example_dir),
      ([''sandbox'', ''project'', ''src'', ''main.py''], example_file ''pass'')]"

text \<open>A file system in which the root has not been made yet.\<close>

definition bare_tree :: fs where
  "bare_tree = [([], example_dir)]"

text \<open>
  Three children: one that prints and exits, one that hangs and whose output is
  read after the kill, and one that hangs and whose output cannot be decoded.
\<close>

definition exec_exits :: exec where
  "exec_exits argv ap_cwd timeout_sec fs = (Exits 0 (''hi'' @ [CHR 0x0A]) [] 12, fs)"



section \<open>Properties of the path functions\<close>

lemma split_sep_not_Nil [simp]: "split_sep s \<noteq> []"
  by (induction s) (auto split: list.splits)

lemma split_sep_no_sep: "w \<in> set (split_sep s) \<Longrightarrow> CHR ''/'' \<notin> set w"
  by (induction s arbitrary: w) (auto split: list.splits if_splits)

lemma split_sep_append: "split_sep (a @ CHR ''/'' # b) = split_sep a @ split_sep b"
  by (induction a) (auto split: list.splits)

lemma split_sep_single: "CHR ''/'' \<notin> set w \<Longrightarrow> split_sep w = [w]"
  by (induction w) auto

lemma split_sep_join:
  "ws \<noteq> [] \<Longrightarrow> \<forall>w\<in>set ws. CHR ''/'' \<notin> set w \<Longrightarrow> split_sep (sep_join ws) = ws"
  by (induction ws rule: sep_join.induct) (auto simp: split_sep_append split_sep_single)

lemma split_sep_slashes: "split_sep (replicate k (CHR ''/'') @ s) = replicate k [] @ split_sep s"
  by (induction k) auto

lemma foldl_norm_plain:
  "\<forall>c\<in>set cs. plain c \<Longrightarrow> foldl (norm_step k) acc cs = acc @ cs"
  by (induction cs arbitrary: acc) (auto simp: norm_step_def plain_def)

lemma foldl_norm_empties: "foldl (norm_step k) acc (replicate n [] @ cs) = foldl (norm_step k) acc cs"
  by (induction n) (auto simp: norm_step_def)

lemma norm_step_plain:
  "0 < k \<Longrightarrow> \<forall>c\<in>set acc. plain c \<Longrightarrow> CHR ''/'' \<notin> set c \<Longrightarrow> \<forall>d\<in>set (norm_step k acc c). plain d"
  by (auto simp: norm_step_def plain_def dest: in_set_butlastD)

lemma foldl_norm_all_plain:
  "0 < k \<Longrightarrow> \<forall>c\<in>set acc. plain c \<Longrightarrow> \<forall>c\<in>set cs. CHR ''/'' \<notin> set c
     \<Longrightarrow> \<forall>d\<in>set (foldl (norm_step k) acc cs). plain d"
proof (induction cs arbitrary: acc)
  case Nil
  then show ?case by simp
next
  case (Cons c cs)
  have "\<forall>d\<in>set (norm_step k acc c). plain d"
    using Cons.prems by (intro norm_step_plain) auto
  then show ?case using Cons by simp
qed

lemma isabs_Cons: "isabs q \<longleftrightarrow> (\<exists>r. q = CHR ''/'' # r)"
  by (cases q) (auto simp: isabs_def startswith_def)

lemma split_sep_slashes0: "split_sep (replicate k (CHR ''/'')) = replicate (Suc k) []"
  using split_sep_slashes[of k "[]"] by (simp add: replicate_append_same)

lemma endswith_slash: "endswith s ''/'' \<longleftrightarrow> s \<noteq> [] \<and> last s = CHR ''/''"
  by (cases s rule: rev_cases) (auto simp: endswith_def)

lemma foldl_norm_empties0: "foldl (norm_step k) acc (replicate n []) = acc"
  by (induction n) (auto simp: norm_step_def)

lemma initial_slashes_abs: "isabs q \<Longrightarrow> initial_slashes q = 1 \<or> initial_slashes q = 2"
  by (auto simp: initial_slashes_def isabs_def)

lemma initial_slashes_replicate:
  "k = 1 \<or> k = 2 \<Longrightarrow> t = [] \<or> hd t \<noteq> CHR ''/'' \<Longrightarrow> initial_slashes (replicate k (CHR ''/'') @ t) = k"
  by (cases t) (auto simp: initial_slashes_def startswith_def numeral_2_eq_2)

lemma sep_join_ends:
  "comps \<noteq> [] \<Longrightarrow> \<forall>c\<in>set comps. plain c \<Longrightarrow>
     sep_join comps \<noteq> [] \<and> hd (sep_join comps) \<noteq> CHR ''/'' \<and> last (sep_join comps) \<noteq> CHR ''/''"
proof (induction comps rule: sep_join.induct)
  case 1
  then show ?case by simp
next
  case (2 x)
  then have "x \<noteq> []" "CHR ''/'' \<notin> set x" by (auto simp: plain_def)
  then show ?case by (cases x) (auto simp: last_in_set[THEN rev_notE] dest!: last_in_set)
next
  case (3 x y ys)
  then have x: "x \<noteq> []" "CHR ''/'' \<notin> set x" by (auto simp: plain_def)
  from 3 have ih: "sep_join (y # ys) \<noteq> []" "last (sep_join (y # ys)) \<noteq> CHR ''/''" by auto
  from x have "hd x \<noteq> CHR ''/''" by (cases x) auto
  with x ih show ?case by (simp add: hd_append)
qed

lemma normpath_abs_form:
  assumes "isabs q"
  shows "\<exists>k comps. (k = 1 \<or> k = 2) \<and> (\<forall>c\<in>set comps. plain c)
           \<and> normpath q = replicate k (CHR ''/'') @ sep_join comps"
proof -
  let ?k = "initial_slashes q"
  let ?comps = "foldl (norm_step ?k) [] (split_sep q)"
  have k: "?k = 1 \<or> ?k = 2" using assms by (rule initial_slashes_abs)
  have q: "q \<noteq> []" using assms by (auto simp: isabs_Cons)
  have pl: "\<forall>c\<in>set ?comps. plain c"
    using k by (intro foldl_norm_all_plain) (auto dest: split_sep_no_sep)
  have "replicate ?k (CHR ''/'') @ sep_join ?comps \<noteq> []" using k by auto
  then have "normpath q = replicate ?k (CHR ''/'') @ sep_join ?comps"
    using q k by (auto simp: normpath_def Let_def)
  with k pl show ?thesis by blast
qed

lemma split_sep_normal:
  assumes "\<forall>c\<in>set comps. plain c"
  shows "filter (\<lambda>x. x \<noteq> []) (split_sep (replicate k (CHR ''/'') @ sep_join comps)) = comps"
proof (cases "comps = []")
  case True
  then show ?thesis by (simp add: split_sep_slashes0)
next
  case False
  have ne: "\<forall>c\<in>set comps. c \<noteq> []" using assms by (auto simp: plain_def)
  have "split_sep (sep_join comps) = comps"
    using False assms by (intro split_sep_join) (auto simp: plain_def)
  then show ?thesis using ne by (simp add: split_sep_slashes filter_id_conv)
qed

lemma foldl_norm_normal:
  assumes "\<forall>c\<in>set comps. plain c"
  shows "foldl (norm_step k) [] (split_sep (replicate k' (CHR ''/'') @ sep_join comps)) = comps"
proof (cases "comps = []")
  case True
  then show ?thesis
    using foldl_norm_empties[of k "[]" "Suc k'" "[]"] by (simp add: split_sep_slashes0)
next
  case False
  have "split_sep (sep_join comps) = comps"
    using False assms by (intro split_sep_join) (auto simp: plain_def)
  then show ?thesis using assms by (simp add: split_sep_slashes foldl_norm_empties0 foldl_norm_plain)
qed

lemma normpath_normal:
  assumes k: "k = 1 \<or> k = 2" and pl: "\<forall>c\<in>set comps. plain c"
  shows "normpath (replicate k (CHR ''/'') @ sep_join comps) = replicate k (CHR ''/'') @ sep_join comps"
proof -
  have t: "sep_join comps = [] \<or> hd (sep_join comps) \<noteq> CHR ''/''"
    using sep_join_ends[OF _ pl] by (cases "comps = []") auto
  have isl: "initial_slashes (replicate k (CHR ''/'') @ sep_join comps) = k"
    using k t by (rule initial_slashes_replicate)
  have ne: "replicate k (CHR ''/'') @ sep_join comps \<noteq> []" using k by auto
  show ?thesis using ne isl foldl_norm_normal[OF pl, of k k]
    by (simp add: normpath_def Let_def)
qed

lemma normpath_join_dot:
  assumes k: "k = 1 \<or> k = 2" and pl: "\<forall>c\<in>set comps. plain c"
  shows "normpath (join (replicate k (CHR ''/'') @ sep_join comps) ''.'') = replicate k (CHR ''/'') @ sep_join comps"
proof (cases "comps = []")
  case True
  have j: "join (replicate k (CHR ''/'')) ''.'' = replicate k (CHR ''/'') @ ''.''"
    using k by (auto simp: join_def startswith_def endswith_def numeral_2_eq_2)
  have isl: "initial_slashes (replicate k (CHR ''/'') @ ''.'') = k"
    using k by (intro initial_slashes_replicate) auto
  have sp: "split_sep (replicate k (CHR ''/'') @ ''.'') = replicate k [] @ [''.'']"
    by (simp add: split_sep_slashes)
  have "foldl (norm_step k) [] (replicate k [] @ [''.'']) = []"
    by (simp add: foldl_norm_empties[of k "[]" k "[''.'']"] norm_step_def del: foldl_append)
  then show ?thesis using True j isl sp k by (auto simp: normpath_def Let_def)
next
  case False
  from sep_join_ends[OF False pl]
  have e: "sep_join comps \<noteq> []" "hd (sep_join comps) \<noteq> CHR ''/''" "last (sep_join comps) \<noteq> CHR ''/''"
    by auto
  let ?b = "replicate k (CHR ''/'') @ sep_join comps"
  have "\<not> endswith ?b ''/''"
    using e by (simp add: endswith_slash)
  then have j: "join ?b ''.'' = replicate k (CHR ''/'') @ (sep_join comps @ ''/.'')"
    using k by (auto simp: join_def startswith_def)
  have isl: "initial_slashes (replicate k (CHR ''/'') @ (sep_join comps @ ''/.'')) = k"
    using k e by (intro initial_slashes_replicate) (auto simp: hd_append)
  have sj: "split_sep (sep_join comps) = comps"
    using False pl by (intro split_sep_join) (auto simp: plain_def)
  have sp: "split_sep (replicate k (CHR ''/'') @ (sep_join comps @ ''/.'')) = replicate k [] @ comps @ [''.'']"
    using split_sep_append[of "sep_join comps" "''.''"] sj by (simp add: split_sep_slashes)
  have "foldl (norm_step k) [] (replicate k [] @ comps @ [''.'']) = comps"
    using pl by (simp add: foldl_norm_empties0 foldl_norm_plain norm_step_def)
  then show ?thesis using j isl sp k by (auto simp: normpath_def Let_def)
qed

lemma isabs_join: "isabs cwd \<Longrightarrow> isabs (if \<not> isabs p then join cwd p else p)"
  by (cases cwd) (auto simp: isabs_def join_def startswith_def)

lemma abspath_form:
  assumes "isabs cwd"
  shows "\<exists>k comps. (k = 1 \<or> k = 2) \<and> (\<forall>c\<in>set comps. plain c)
           \<and> abspath cwd p = replicate k (CHR ''/'') @ sep_join comps"
  unfolding abspath_def using isabs_join[OF assms] by (rule normpath_abs_form)

lemma normal_form_props:
  assumes k: "k = 1 \<or> k = 2" and pl: "\<forall>c\<in>set comps. plain c"
    and t: "t = replicate k (CHR ''/'') @ sep_join comps"
  shows "isabs t" and "''..'' \<notin> set (split_sep t)" and "''.'' \<notin> set (split_sep t)"
proof -
  show "isabs t" using k t by (auto simp: isabs_def startswith_def numeral_2_eq_2)
  have sp: "set (split_sep t) \<subseteq> insert [] (set comps)"
  proof (cases "comps = []")
    case True
    then show ?thesis using t by (auto simp: split_sep_slashes0)
  next
    case False
    have "split_sep (sep_join comps) = comps"
      using False pl by (intro split_sep_join) (auto simp: plain_def)
    then show ?thesis using t by (auto simp: split_sep_slashes)
  qed
  show "''..'' \<notin> set (split_sep t)" using sp pl by (auto simp: plain_def)
  show "''.'' \<notin> set (split_sep t)" using sp pl by (auto simp: plain_def)
qed

lemma startswith_append_Cons:
  "startswith (b @ c # rest) (b @ [d]) \<longleftrightarrow> c = d"
  by (simp add: startswith_def)


subsection \<open>Evaluated examples\<close>

lemma abspath_abs: "isabs p \<Longrightarrow> abspath cwd p = normpath p"
  by (simp add: abspath_def)

lemma sandbox_isabs: "isabs ''/sandbox''" by code_simp
lemma sandbox_normal: "normpath ''/sandbox'' = ''/sandbox''" by code_simp
lemma join_etc_passwd: "join ''/sandbox'' (lstrip [CHR ''/'', CHR 0x5C] ''/etc/passwd'') = ''/sandbox/etc/passwd''" by code_simp
lemma sandbox_etc_isabs: "isabs ''/sandbox/etc/passwd''" by code_simp
lemma sandbox_etc_normal: "normpath ''/sandbox/etc/passwd'' = ''/sandbox/etc/passwd''" by code_simp
lemma sandbox_etc_inside: "startswith ''/sandbox/etc/passwd'' (''/sandbox'' @ ''/'')" by code_simp
lemma join_dotdot_etc: "join ''/sandbox'' (lstrip [CHR ''/'', CHR 0x5C] ''../../etc/passwd'') = ''/sandbox/../../etc/passwd''" by code_simp
lemma dotdot_etc_isabs: "isabs ''/sandbox/../../etc/passwd''" by code_simp
lemma dotdot_etc_normal: "normpath ''/sandbox/../../etc/passwd'' = ''/etc/passwd''" by code_simp
lemma etc_passwd_outside: "\<not> startswith ''/etc/passwd'' (''/sandbox'' @ ''/'')" by code_simp


lemma default_cwd_isabs: "isabs (getcwd (default_config ''/'' ''/sandbox'' False))" by code_simp
lemma default_abs_etc_passwd: "abs' (default_config ''/'' ''/sandbox'' False) ''/etc/passwd'' = Inr ''/sandbox/etc/passwd''"
  by code_simp
lemma default_root: "ROOT_DIR (default_config ''/'' ''/sandbox'' False) = ''/sandbox''" by code_simp
lemma git_config_denied: "fnmatch ''project/.git/config'' ''**/.git/**''" by code_simp
lemma readme_allowed: "fnmatch ''project/readme.md'' ''**/*''" by code_simp
lemma readme_not_denied: "\<not> fnmatch ''project/readme.md'' ''**/.git/**''" by code_simp

subsection \<open>The pattern that allows everything below a directory\<close>

lemma matches_star: "matches [STAR] s"
  by (induction s) auto

lemma matches_sep_star: "matches [Literal (CHR ''/''), STAR] s \<longleftrightarrow> (\<exists>r. s = CHR ''/'' # r)"
  by (cases s) (auto simp: matches_star)

lemma matches_star_sep_star: "matches [STAR, Literal (CHR ''/''), STAR] s \<longleftrightarrow> CHR ''/'' \<in> set s"
  by (induction s) (auto simp: matches_star)

lemma translate_any_below: "translate ''**/*'' = [STAR, Literal (CHR ''/''), STAR]"
  by code_simp

lemma fnmatch_any_below: "fnmatch rel ''**/*'' \<longleftrightarrow> CHR ''/'' \<in> set rel"
  by (simp add: fnmatch_def translate_any_below matches_star_sep_star)

lemma commonprefix_same: "commonprefix xs xs = xs"
  by (induction xs) auto

lemma sandbox_base_form:
  assumes "isabs (getcwd cfg)"
  shows "\<exists>k comps. (k = 1 \<or> k = 2) \<and> (\<forall>c\<in>set comps. plain c)
           \<and> sandbox_base cfg = replicate k (CHR ''/'') @ sep_join comps"
  unfolding sandbox_base_def using assms by (rule abspath_form)

lemma abs_dot:
  assumes cwd: "isabs (getcwd cfg)"
  shows "abs' cfg ''.'' = Inr (sandbox_base cfg)"
proof -
  obtain k comps where f: "k = 1 \<or> k = 2" "\<forall>c\<in>set comps. plain c"
      "sandbox_base cfg = replicate k (CHR ''/'') @ sep_join comps"
    using sandbox_base_form[OF cwd] by blast
  have ls: "lstrip [CHR ''/'', CHR 0x5C] ''.'' = ''.''" by (simp add: lstrip_def)
  have ab: "isabs (join (sandbox_base cfg) ''.'')"
    using f(1) f(3) by (auto simp: isabs_def join_def startswith_def numeral_2_eq_2)
  have "abspath (getcwd cfg) (join (sandbox_base cfg) ''.'') = normpath (join (sandbox_base cfg) ''.'')"
    by (rule abspath_abs[OF ab])
  also have "\<dots> = sandbox_base cfg"
    using normpath_join_dot[OF f(1) f(2)] by (simp only: f(3))
  finally have "abspath (getcwd cfg) (join (sandbox_base cfg) ''.'') = sandbox_base cfg" .
  then show ?thesis by (simp add: abs'_def Let_def ls)
qed

lemma rel_base:
  assumes cwd: "isabs (getcwd cfg)"
  shows "rel_to_root cfg (sandbox_base cfg) = Inr ''.''"
proof -
  obtain k comps where f: "k = 1 \<or> k = 2" "\<forall>c\<in>set comps. plain c"
      "sandbox_base cfg = replicate k (CHR ''/'') @ sep_join comps"
    using sandbox_base_form[OF cwd] by blast
  have ne: "sandbox_base cfg \<noteq> []" using f by auto
  have ab: "isabs (sandbox_base cfg)" using normal_form_props(1)[OF f] .
  have "abspath (getcwd cfg) (sandbox_base cfg) = normpath (sandbox_base cfg)"
    by (rule abspath_abs[OF ab])
  also have "\<dots> = sandbox_base cfg"
    using normpath_normal[OF f(1) f(2)] by (simp only: f(3))
  finally have a1: "abspath (getcwd cfg) (sandbox_base cfg) = sandbox_base cfg" .
  have a2: "abspath (getcwd cfg) (ROOT_DIR cfg) = sandbox_base cfg"
    by (simp add: sandbox_base_def)
  show ?thesis
    using ne by (simp add: rel_to_root_def relpath_def a1 a2 Let_def commonprefix_same)
qed


subsection \<open>Evaluated facts about the example installation\<close>

lemma ex_allow: "ALLOW_GLOBS example_config = [''**/*'']" by code_simp
lemma ex_cwd: "isabs (getcwd example_config)" by code_simp
lemma ex_enabled: "ENABLE_RUN_COMMANDS example_config" by code_simp
lemma ex_root: "ensure_root example_config example_env example_tree = (Inr (), example_tree)"
  by code_simp
lemma ex_rel_project: "rel_to_root example_config ''/sandbox/project'' = Inr ''project''"
  by code_simp
lemma ex_src: "checked_path example_config ''project/src'' = Inr ''/sandbox/project/src''"
  by code_simp
lemma ex_outside: "checked_path example_config ''../outside'' = Inl PathEscape"
  by code_simp
lemma ex_bash: "map_of (COMMAND_ALLOWLIST example_config) ''bash'' = Some [''-lc'']"
  by code_simp
lemma ex_base_bash: "basename ''bash'' = ''bash''" by code_simp
lemma ex_base_tmp: "basename ''/tmp/anything/bash'' = ''bash''" by code_simp
lemma ex_base_nope: "basename ''nope'' = ''nope''" by code_simp
lemma ex_nope: "map_of (COMMAND_ALLOWLIST example_config) ''nope'' = None" by code_simp




subsection \<open>The branches of run\<close>

lemma run_process_spawns:
  "\<exists>result fs' rest. run_process cfg exec argv ap_cwd timeout_sec fs = (result, fs', Popen argv ap_cwd # rest)"
proof (cases "exec argv ap_cwd timeout_sec fs")
  case (Pair b fs')
  show ?thesis
  proof (cases b)
    case (TimesOut d)
    then show ?thesis using Pair by (cases d) (auto simp: run_process_def)
  qed (use Pair in \<open>auto simp: run_process_def\<close>)
qed

lemma run_disabled:
  "\<not> ENABLE_RUN_COMMANDS cfg \<Longrightarrow> run cfg env exec cmd args cwd timeout_sec fs0 = (Inl FeatureDisabled, fs0, [])"
  by (simp add: run_def)

lemma run_root_fails:
  "ENABLE_RUN_COMMANDS cfg \<Longrightarrow> ensure_root cfg env fs0 = (Inl e, fs)
     \<Longrightarrow> run cfg env exec cmd args cwd timeout_sec fs0 = (Inl e, fs, [])"
  by (simp add: run_def)

lemma run_cwd_fails:
  "ENABLE_RUN_COMMANDS cfg \<Longrightarrow> ensure_root cfg env fs0 = (Inr (), fs) \<Longrightarrow> checked_path cfg cwd = Inl e
     \<Longrightarrow> run cfg env exec cmd args cwd timeout_sec fs0 = (Inl e, fs, [])"
  by (simp add: run_def)

lemma run_not_allowed:
  "ENABLE_RUN_COMMANDS cfg \<Longrightarrow> ensure_root cfg env fs0 = (Inr (), fs) \<Longrightarrow> checked_path cfg cwd = Inr ap_cwd
     \<Longrightarrow> map_of (COMMAND_ALLOWLIST cfg) (basename cmd) = None
     \<Longrightarrow> run cfg env exec cmd args cwd timeout_sec fs0 = (Inl (CommandNotAllowed (basename cmd)), fs, [])"
  by (simp add: run_def)

lemma run_bad_prefix:
  "ENABLE_RUN_COMMANDS cfg \<Longrightarrow> ensure_root cfg env fs0 = (Inr (), fs) \<Longrightarrow> checked_path cfg cwd = Inr ap_cwd
     \<Longrightarrow> map_of (COMMAND_ALLOWLIST cfg) (basename cmd) = Some prefix
     \<Longrightarrow> take (length prefix) (case args of None \<Rightarrow> [] | Some a \<Rightarrow> a) \<noteq> prefix
     \<Longrightarrow> run cfg env exec cmd args cwd timeout_sec fs0
           = (Inl (ArgumentPrefixViolation prefix (basename cmd)), fs, [])"
  by (simp add: run_def Let_def)

lemma run_passes:
  "ENABLE_RUN_COMMANDS cfg \<Longrightarrow> ensure_root cfg env fs0 = (Inr (), fs) \<Longrightarrow> checked_path cfg cwd = Inr ap_cwd
     \<Longrightarrow> map_of (COMMAND_ALLOWLIST cfg) (basename cmd) = Some prefix
     \<Longrightarrow> take (length prefix) (case args of None \<Rightarrow> [] | Some a \<Rightarrow> a) = prefix
     \<Longrightarrow> run cfg env exec cmd args cwd timeout_sec fs0
           = (case run_process cfg exec (cmd # (case args of None \<Rightarrow> [] | Some a \<Rightarrow> a)) ap_cwd timeout_sec fs of
                (result, fs', calls) \<Rightarrow> (Inr result, fs', calls))"
  by (simp add: run_def Let_def)


subsection \<open>The two stages of the policy check\<close>

lemma policy_cases:
  assumes rel: "rel_to_root cfg ap = Inr rel"
  shows "policy cfg ap =
          (case find (fnmatch rel) (DENY_GLOBS cfg) of
             Some pat \<Rightarrow> Inl (PolicyDenied (Some pat))
           | None \<Rightarrow>
               if list_ex (fnmatch rel) (ALLOW_GLOBS cfg) then Inr () else Inl (PolicyDenied None))"
  using rel by (simp add: policy_def deny_check_def allow_check_def split: option.splits)

subsection \<open>The listing loop\<close>












subsection \<open>Lookups in the file tree\<close>












subsection \<open>The library calls raise no boundary violation\<close>

lemma boundary_is_PermissionError: "boundary_violation e = is_PermissionError e"
  by (cases e) auto

lemma makedirs_from_err:
  "makedirs_from env exist_ok p done cs fs = (Inl e, fs') \<Longrightarrow> \<not> boundary_violation e"
  by (induction cs arbitrary: "done" fs) (auto simp: Let_def split: if_splits)

lemma makedirs_err: "makedirs env cwd fs p exist_ok = (Inl e, fs') \<Longrightarrow> \<not> boundary_violation e"
  by (auto simp: makedirs_def Let_def split: if_splits dest: makedirs_from_err)

lemma ensure_root_err: "ensure_root cfg env fs = (Inl e, fs') \<Longrightarrow> \<not> boundary_violation e"
  by (auto simp: ensure_root_def dest: makedirs_err)

lemma os_mkdir_err: "os_mkdir env cwd fs p = (Inl e, fs') \<Longrightarrow> \<not> boundary_violation e"
  by (auto simp: os_mkdir_def Let_def split: if_splits)

lemma os_remove_err: "os_remove cwd fs p = (Inl e, fs') \<Longrightarrow> \<not> boundary_violation e"
  by (auto simp: os_remove_def Let_def split: if_splits option.splits)

lemma rmtree_err: "rmtree cwd fs p = (Inl e, fs') \<Longrightarrow> \<not> boundary_violation e"
  by (auto simp: rmtree_def Let_def split: if_splits option.splits kind.splits)

lemma shutil_move_err: "shutil_move cwd fs src dst = (Inl e, fs') \<Longrightarrow> \<not> boundary_violation e"
  by (auto simp: shutil_move_def Let_def split: if_splits)

lemma open_w_err: "open_w env cwd fs p = (Inl e, fs') \<Longrightarrow> \<not> boundary_violation e"
  by (auto simp: open_w_def Let_def split: if_splits option.splits)

lemma lstat_err: "lstat cwd fs p = Inl e \<Longrightarrow> \<not> boundary_violation e"
  by (auto simp: lstat_def split: option.splits)

lemma listdir_err: "listdir cwd fs p = Inl e \<Longrightarrow> \<not> boundary_violation e"
  by (auto simp: listdir_def split: option.splits if_splits)

lemma read_bytes_err: "read_bytes cwd fs p = Inl e \<Longrightarrow> \<not> boundary_violation e"
  by (auto simp: read_bytes_def split: option.splits kind.splits)

lemma rel_to_root_err: "rel_to_root cfg p = Inl e \<Longrightarrow> \<not> boundary_violation e"
  by (auto simp: rel_to_root_def relpath_def Let_def split: if_splits)

lemma list_entries_err:
  "list_entries cfg fs ap glob_pattern include_hidden names = Inl e \<Longrightarrow> \<not> boundary_violation e"
  by (induction names) (auto simp: boundary_is_PermissionError split: if_splits sum.splits)

lemma list_dir_boundary:
  "list_dir cfg env path glob_pattern include_hidden fs0 = (Inl e, fs') \<Longrightarrow> boundary_violation e
     \<Longrightarrow> ensure_root cfg env fs0 = (Inr (), fs')"
  by (auto simp: list_dir_def split: prod.splits sum.splits if_splits
      dest: ensure_root_err listdir_err list_entries_err rel_to_root_err)

lemma read_text_boundary:
  "read_text cfg env path encoding fs0 = (Inl e, fs') \<Longrightarrow> boundary_violation e
     \<Longrightarrow> ensure_root cfg env fs0 = (Inr (), fs')"
  by (auto simp: read_text_def split: prod.splits sum.splits if_splits option.splits
      dest: ensure_root_err read_bytes_err rel_to_root_err)

lemma stat_boundary:
  "stat cfg env path fs0 = (Inl e, fs') \<Longrightarrow> boundary_violation e
     \<Longrightarrow> ensure_root cfg env fs0 = (Inr (), fs')"
  by (auto simp: stat_def split: prod.splits sum.splits if_splits
      dest: ensure_root_err lstat_err rel_to_root_err)

lemma mkdir_boundary:
  "mkdir cfg env path parents exist_ok fs0 = (Inl e, fs') \<Longrightarrow> boundary_violation e
     \<Longrightarrow> ensure_root cfg env fs0 = (Inr (), fs')"
  by (auto simp: mkdir_def split: prod.splits sum.splits if_splits
      dest: ensure_root_err makedirs_err os_mkdir_err rel_to_root_err)

lemma rm_boundary:
  "rm cfg env path recursive fs0 = (Inl e, fs') \<Longrightarrow> boundary_violation e
     \<Longrightarrow> ensure_root cfg env fs0 = (Inr (), fs')"
  by (auto simp: rm_def split: prod.splits sum.splits if_splits
      dest: ensure_root_err rmtree_err os_remove_err rel_to_root_err)

lemma write_text_boundary:
  "write_text cfg env path content create_dirs overwrite encoding fs0 = (Inl e, fs') \<Longrightarrow> boundary_violation e
     \<Longrightarrow> ensure_root cfg env fs0 = (Inr (), fs')"
  by (auto simp: write_text_def split: prod.splits sum.splits if_splits option.splits
      dest: ensure_root_err makedirs_err open_w_err rel_to_root_err)

lemma mv_boundary:
  "mv cfg env src dst overwrite fs0 = (Inl e, fs') \<Longrightarrow> boundary_violation e
     \<Longrightarrow> ensure_root cfg env fs0 = (Inr (), fs')"
  by (auto simp: mv_def split: prod.splits sum.splits if_splits
      dest: ensure_root_err makedirs_err rmtree_err os_remove_err shutil_move_err rel_to_root_err)

lemma run_boundary:
  "run cfg env exec cmd args cwd timeout_sec fs0 = (Inl e, fs', calls) \<Longrightarrow> boundary_violation e
     \<Longrightarrow> fs' = fs0 \<or> ensure_root cfg env fs0 = (Inr (), fs')"
  by (auto simp: run_def Let_def split: prod.splits sum.splits if_splits option.splits
      dest: ensure_root_err)

lemma makedirs_from_adds:
  "makedirs_from env exist_ok p done cs fs = (r, fs')
     \<Longrightarrow> \<exists>ks. fs' = fs @ map (\<lambda>k. (k, new_dir env)) ks \<and> (\<forall>k\<in>set ks. below k (done @ cs))"
proof (induction cs arbitrary: "done" fs)
  case Nil
  then show ?case by (auto intro: exI[of _ "[]"])
next
  case (Cons c cs)
  let ?k = "done @ [c]"
  consider (stop) "fs' = fs"
    | (down) "makedirs_from env exist_ok p ?k cs fs = (r, fs')"
    | (make) "makedirs_from env exist_ok p ?k cs (fs @ [(?k, new_dir env)]) = (r, fs')"
    using Cons.prems by (auto simp: Let_def split: if_splits)
  then show ?case
  proof cases
    case stop
    then show ?thesis by (auto intro: exI[of _ "[]"])
  next
    case down
    from Cons.IH[OF down] show ?thesis by simp
  next
    case make
    from Cons.IH[OF make] obtain ks where
      ks: "fs' = (fs @ [(?k, new_dir env)]) @ map (\<lambda>k. (k, new_dir env)) ks"
        "\<forall>k\<in>set ks. below k (?k @ cs)" by blast
    have "fs' = fs @ map (\<lambda>k. (k, new_dir env)) (?k # ks)" using ks(1) by simp
    moreover have "\<forall>k\<in>set (?k # ks). below k (done @ c # cs)"
      using ks(2) by (auto simp: below_def)
    ultimately show ?thesis by blast
  qed
qed

lemma ensure_root_adds:
  "ensure_root cfg env fs = (r, fs')
     \<Longrightarrow> \<exists>ks. fs' = fs @ map (\<lambda>k. (k, new_dir env)) ks
            \<and> (\<forall>k\<in>set ks. below k (path_key (getcwd cfg) (ROOT_DIR cfg)))"
proof -
  assume a: "ensure_root cfg env fs = (r, fs')"
  show ?thesis
  proof (cases "path_key (getcwd cfg) (ROOT_DIR cfg) = []")
    case True
    then have "fs' = fs" using a by (auto simp: ensure_root_def makedirs_def Let_def split: if_splits)
    then show ?thesis by (auto intro: exI[of _ "[]"])
  next
    case False
    then have "makedirs_from env True (ROOT_DIR cfg) [] (path_key (getcwd cfg) (ROOT_DIR cfg)) fs = (r, fs')"
      using a by (simp add: ensure_root_def makedirs_def Let_def)
    from makedirs_from_adds[OF this] show ?thesis by simp
  qed
qed

lemma call_tool_boundary:
  assumes "call_tool cfg env exec req fs0 = (Inl e, fs')" and "boundary_violation e"
  shows "fs' = fs0 \<or> ensure_root cfg env fs0 = (Inr (), fs')"
proof (cases req)
  case (ListDir path glob_pattern include_hidden)
  then show ?thesis using assms list_dir_boundary by simp
next
  case (ReadText path encoding)
  then show ?thesis using assms read_text_boundary by simp
next
  case (WriteText path content create_dirs overwrite encoding)
  then show ?thesis using assms write_text_boundary by simp
next
  case (MkDir path parents exist_ok)
  then show ?thesis using assms mkdir_boundary by simp
next
  case (Mv src dst overwrite)
  then show ?thesis using assms mv_boundary by simp
next
  case (Rm path recursive)
  then show ?thesis using assms rm_boundary by simp
next
  case (Stat path)
  then show ?thesis using assms stat_boundary by simp
next
  case (Run cmd args cwd timeout_sec)
  then obtain calls where "run cfg env exec cmd args cwd timeout_sec fs0 = (Inl e, fs', calls)"
    using assms(1) by (auto split: prod.splits)
  from run_boundary[OF this assms(2)] show ?thesis .
qed


lemma ex_escape_bare:
  "call_tool example_config example_env exec_exits
      (WriteText ''../evil.txt'' ''data'' True True None) bare_tree
     = (Inl PathEscape, bare_tree @ [([''sandbox''], new_dir example_env)])"
  by code_simp
lemma ex_escape_tree:
  "call_tool example_config example_env exec_exits
      (WriteText ''../evil.txt'' ''data'' True True None) example_tree
     = (Inl PathEscape, example_tree)"
  by code_simp
lemma ex_bare_root:
  "ensure_root example_config example_env bare_tree
     = (Inr (), bare_tree @ [([''sandbox''], new_dir example_env)])"
  by code_simp
lemma ex_bare_changed: "bare_tree @ [([''sandbox''], new_dir example_env)] \<noteq> bare_tree"
  by simp


section \<open>Path resolution stays inside the root\<close>

text \<open>
  C1. For every requested path, \<open>abs'\<close> either fails with \<open>PathEscape\<close> or returns an
  absolute path without \<^verbatim>\<open>.\<close> and \<^verbatim>\<open>..\<close> components that is the sandbox root
  or the root followed by a separator and a suffix. A path that continues the root's
  text with another character than the separator (a sibling such as
  \<^verbatim>\<open>/sandbox-other\<close> for the root \<^verbatim>\<open>/sandbox\<close>) is never returned. The working
  directory of the process is absolute, as \<^verbatim>\<open>os.getcwd()\<close> gives it.
\<close>

theorem abs_confined:
  assumes cwd: "isabs (getcwd cfg)"
  shows "(abs' cfg path = Inl PathEscape \<or>
          (\<exists>target. abs' cfg path = Inr target \<and> isabs target
             \<and> ''..'' \<notin> set (split_sep target) \<and> ''.'' \<notin> set (split_sep target)
             \<and> (target = sandbox_base cfg \<or> (\<exists>suffix. target = sandbox_base cfg @ ''/'' @ suffix))))
         \<and> (\<forall>c rest. c \<noteq> CHR ''/'' \<longrightarrow> abs' cfg path \<noteq> Inr (sandbox_base cfg @ c # rest))"
proof -
  define base where "base = sandbox_base cfg"
  define target where
    "target = abspath (getcwd cfg) (join base (lstrip [CHR ''/'', CHR 0x5C] path))"
  have res: "abs' cfg path =
      (if \<not> (startswith target (base @ ''/'') \<or> target = base) then Inl PathEscape else Inr target)"
    by (simp add: abs'_def base_def target_def Let_def)
  obtain k comps where f: "k = 1 \<or> k = 2" "\<forall>c\<in>set comps. plain c"
      "target = replicate k (CHR ''/'') @ sep_join comps"
    unfolding target_def using abspath_form[OF cwd] by blast
  note props = normal_form_props[OF f]
  have desc: "startswith target (base @ ''/'') \<Longrightarrow> \<exists>suffix. target = base @ ''/'' @ suffix"
  proof -
    assume "startswith target (base @ ''/'')"
    then have "target = (base @ ''/'') @ drop (length (base @ ''/'')) target"
      unfolding startswith_def by (metis append_take_drop_id)
    then show ?thesis by auto
  qed
  have part1: "abs' cfg path = Inl PathEscape \<or>
          (\<exists>t. abs' cfg path = Inr t \<and> isabs t
             \<and> ''..'' \<notin> set (split_sep t) \<and> ''.'' \<notin> set (split_sep t)
             \<and> (t = base \<or> (\<exists>suffix. t = base @ ''/'' @ suffix)))"
  proof (cases "startswith target (base @ ''/'') \<or> target = base")
    case True
    then have "abs' cfg path = Inr target" using res by simp
    moreover have "target = base \<or> (\<exists>suffix. target = base @ ''/'' @ suffix)"
      using True desc by blast
    ultimately show ?thesis using props by blast
  next
    case False
    then show ?thesis using res by simp
  qed
  have part2: "\<forall>c rest. c \<noteq> CHR ''/'' \<longrightarrow> abs' cfg path \<noteq> Inr (base @ c # rest)"
  proof (intro allI impI notI)
    fix c rest
    assume c: "c \<noteq> CHR ''/''" and eq: "abs' cfg path = Inr (base @ c # rest)"
    from eq res have t: "target = base @ c # rest"
      and ok: "startswith target (base @ ''/'') \<or> target = base"
      by (auto split: if_splits)
    from ok t c show False by (auto simp: startswith_def)
  qed
  from part1 part2 show ?thesis unfolding base_def by blast
qed


theorem abs_confined_witness:
  "isabs (getcwd (default_config ''/'' ''/sandbox'' False))
   \<and> (abs' (default_config ''/'' ''/sandbox'' False) ''a/../b'' = Inl PathEscape \<or>
       (\<exists>target. abs' (default_config ''/'' ''/sandbox'' False) ''a/../b'' = Inr target \<and> isabs target
             \<and> ''..'' \<notin> set (split_sep target) \<and> ''.'' \<notin> set (split_sep target)
             \<and> (target = sandbox_base (default_config ''/'' ''/sandbox'' False)
                 \<or> (\<exists>suffix. target = sandbox_base (default_config ''/'' ''/sandbox'' False) @ ''/'' @ suffix))))
   \<and> abs' (default_config ''/'' ''/sandbox'' False) ''../sandbox-other''
        \<noteq> Inr (sandbox_base (default_config ''/'' ''/sandbox'' False) @ CHR ''-'' # ''other'')"
proof -
  have c: "CHR ''-'' \<noteq> CHR ''/''" by simp
  from abs_confined[OF default_cwd_isabs, of "''a/../b''"] abs_confined[OF default_cwd_isabs, of "''../sandbox-other''"] c default_cwd_isabs
  show ?thesis by blast
qed

text \<open>
  C3, as amended. When the root is \<^verbatim>\<open>/sandbox\<close>, the requested path
  \<^verbatim>\<open>/etc/passwd\<close> loses its leading separator and resolves to
  \<^verbatim>\<open>/sandbox/etc/passwd\<close>, inside the root; \<^verbatim>\<open>../../etc/passwd\<close> fails with
  \<open>PathEscape\<close>.
\<close>

theorem abs_examples:
  assumes "ROOT_DIR cfg = ''/sandbox''"
  shows "abs' cfg ''/etc/passwd'' = Inr ''/sandbox/etc/passwd''
       \<and> abs' cfg ''../../etc/passwd'' = Inl PathEscape"
proof -
  have b: "sandbox_base cfg = ''/sandbox''"
    using assms by (simp only: sandbox_base_def abspath_abs[OF sandbox_isabs] sandbox_normal)
  have t1: "abspath (getcwd cfg) (join ''/sandbox'' (lstrip [CHR ''/'', CHR 0x5C] ''/etc/passwd'')) = ''/sandbox/etc/passwd''"
    by (simp only: join_etc_passwd abspath_abs[OF sandbox_etc_isabs] sandbox_etc_normal)
  have t2: "abspath (getcwd cfg) (join ''/sandbox'' (lstrip [CHR ''/'', CHR 0x5C] ''../../etc/passwd'')) = ''/etc/passwd''"
    by (simp only: join_dotdot_etc abspath_abs[OF dotdot_etc_isabs] dotdot_etc_normal)
  have a1: "abs' cfg ''/etc/passwd'' = Inr ''/sandbox/etc/passwd''"
    unfolding abs'_def b Let_def t1 using sandbox_etc_inside by simp
  have a2: "abs' cfg ''../../etc/passwd'' = Inl PathEscape"
    unfolding abs'_def b Let_def t2 using etc_passwd_outside by simp
  from a1 a2 show ?thesis by simp
qed

theorem abs_examples_witness:
  "ROOT_DIR (default_config ''/'' ''/sandbox'' False) = ''/sandbox''
   \<and> abs' (default_config ''/'' ''/sandbox'' False) ''/etc/passwd'' = Inr ''/sandbox/etc/passwd''
   \<and> abs' (default_config ''/'' ''/sandbox'' False) ''../../etc/passwd'' = Inl PathEscape"
  using abs_examples[OF default_root] default_root by simp

text \<open>
  C3 as stated fails: with the root \<^verbatim>\<open>/sandbox\<close>, resolving \<^verbatim>\<open>/etc/passwd\<close>
  does not fail with \<open>PathEscape\<close>.
\<close>

theorem abs_etc_passwd_counterexample:
  "abs' (default_config ''/'' ''/sandbox'' False) ''/etc/passwd'' = Inr ''/sandbox/etc/passwd''
   \<and> abs' (default_config ''/'' ''/sandbox'' False) ''/etc/passwd'' \<noteq> Inl PathEscape"
  using default_abs_etc_passwd by simp

section \<open>The policy check: deny before allow\<close>

text \<open>
  C2. For a path whose form relative to the root is \<open>rel\<close>: if \<open>rel\<close> matches a
  deny pattern the check fails with \<open>PolicyDenied\<close> and names a matching deny pattern,
  whatever the allow patterns are; the check succeeds exactly when \<open>rel\<close> matches an
  allow pattern and no deny pattern; every failure is \<open>PolicyDenied\<close>. With the deny
  pattern \<^verbatim>\<open>**/.git/**\<close> and the allow pattern \<^verbatim>\<open>**/*\<close>, the check fails on
  \<^verbatim>\<open>project/.git/config\<close> and succeeds on \<^verbatim>\<open>project/readme.md\<close>.
\<close>

theorem policy_deny_before_allow:
  assumes rel: "rel_to_root cfg ap = Inr rel"
  shows "(list_ex (fnmatch rel) (DENY_GLOBS cfg) \<longrightarrow>
            (\<exists>pat\<in>set (DENY_GLOBS cfg). fnmatch rel pat \<and> policy cfg ap = Inl (PolicyDenied (Some pat))))
       \<and> (policy cfg ap = Inr () \<longleftrightarrow>
            list_ex (fnmatch rel) (ALLOW_GLOBS cfg) \<and> \<not> list_ex (fnmatch rel) (DENY_GLOBS cfg))
       \<and> (policy cfg ap \<noteq> Inr () \<longrightarrow> (\<exists>w. policy cfg ap = Inl (PolicyDenied w)))
       \<and> (DENY_GLOBS cfg = [''**/.git/**''] \<and> ALLOW_GLOBS cfg = [''**/*''] \<longrightarrow>
            (rel = ''project/.git/config'' \<longrightarrow> policy cfg ap = Inl (PolicyDenied (Some ''**/.git/**'')))
          \<and> (rel = ''project/readme.md'' \<longrightarrow> policy cfg ap = Inr ()))"
proof -
  note pc = policy_cases[OF rel]
  have general: "(list_ex (fnmatch rel) (DENY_GLOBS cfg) \<longrightarrow>
            (\<exists>pat\<in>set (DENY_GLOBS cfg). fnmatch rel pat \<and> policy cfg ap = Inl (PolicyDenied (Some pat))))
       \<and> (policy cfg ap = Inr () \<longleftrightarrow>
            list_ex (fnmatch rel) (ALLOW_GLOBS cfg) \<and> \<not> list_ex (fnmatch rel) (DENY_GLOBS cfg))
       \<and> (policy cfg ap \<noteq> Inr () \<longrightarrow> (\<exists>w. policy cfg ap = Inl (PolicyDenied w)))"
  proof (cases "find (fnmatch rel) (DENY_GLOBS cfg)")
    case None
    then have nd: "\<not> list_ex (fnmatch rel) (DENY_GLOBS cfg)"
      by (auto simp: find_None_iff list_ex_iff)
    show ?thesis using nd pc None by auto
  next
    case (Some pat)
    then have pat: "pat \<in> set (DENY_GLOBS cfg)" "fnmatch rel pat"
      by (auto simp: find_Some_iff)
    then have d: "list_ex (fnmatch rel) (DENY_GLOBS cfg)" by (auto simp: list_ex_iff)
    show ?thesis using pat d pc Some by auto
  qed
  have git: "DENY_GLOBS cfg = [''**/.git/**''] \<Longrightarrow> rel = ''project/.git/config''
               \<Longrightarrow> policy cfg ap = Inl (PolicyDenied (Some ''**/.git/**''))"
    using pc git_config_denied by simp
  have readme: "DENY_GLOBS cfg = [''**/.git/**''] \<Longrightarrow> ALLOW_GLOBS cfg = [''**/*'']
               \<Longrightarrow> rel = ''project/readme.md'' \<Longrightarrow> policy cfg ap = Inr ()"
    using pc readme_allowed readme_not_denied by simp
  from general git readme show ?thesis by blast
qed

theorem policy_deny_before_allow_witness:
  "rel_to_root (default_config ''/'' ''/sandbox'' False\<lparr>DENY_GLOBS := [''**/.git/**'']\<rparr>)
       ''/sandbox/project/.git/config'' = Inr ''project/.git/config''
   \<and> policy (default_config ''/'' ''/sandbox'' False\<lparr>DENY_GLOBS := [''**/.git/**'']\<rparr>)
       ''/sandbox/project/.git/config'' = Inl (PolicyDenied (Some ''**/.git/**''))
   \<and> rel_to_root (default_config ''/'' ''/sandbox'' False\<lparr>DENY_GLOBS := [''**/.git/**'']\<rparr>)
       ''/sandbox/project/readme.md'' = Inr ''project/readme.md''
   \<and> policy (default_config ''/'' ''/sandbox'' False\<lparr>DENY_GLOBS := [''**/.git/**'']\<rparr>)
       ''/sandbox/project/readme.md'' = Inr ()"
proof -
  let ?cfg = "default_config ''/'' ''/sandbox'' False\<lparr>DENY_GLOBS := [''**/.git/**'']\<rparr>"
  have r1: "rel_to_root ?cfg ''/sandbox/project/.git/config'' = Inr ''project/.git/config''"
    by code_simp
  have r2: "rel_to_root ?cfg ''/sandbox/project/readme.md'' = Inr ''project/readme.md''"
    by code_simp
  have d: "DENY_GLOBS ?cfg = [''**/.git/**'']" and a: "ALLOW_GLOBS ?cfg = [''**/*'']"
    by (simp_all add: default_config_def)
  from policy_deny_before_allow[OF r1] policy_deny_before_allow[OF r2] d a r1 r2
  show ?thesis by blast
qed

section \<open>What the default allow pattern leaves out\<close>

text \<open>
  C9. When the allow patterns are the default \<^verbatim>\<open>["**/*"]\<close>, a path whose form
  relative to the root has no separator matches no allow pattern, and the policy check
  fails with \<open>PolicyDenied\<close>. The root itself has the relative form \<^verbatim>\<open>.\<close>: the
  default working directory \<^verbatim>\<open>.\<close> of \<^verbatim>\<open>run\<close> resolves to the root, so that
  \<^verbatim>\<open>run\<close>, when it is enabled and the root can be made, fails with \<open>PolicyDenied\<close>
  for every command and every argument list, before anything is spawned.
\<close>

theorem root_level_denied:
  "(ALLOW_GLOBS cfg = [''**/*''] \<and> rel_to_root cfg ap = Inr rel \<and> CHR ''/'' \<notin> set rel
      \<longrightarrow> (\<exists>w. policy cfg ap = Inl (PolicyDenied w)))
   \<and> (ALLOW_GLOBS cfg = [''**/*''] \<and> isabs (getcwd cfg)
      \<longrightarrow> abs' cfg ''.'' = Inr (sandbox_base cfg) \<and> rel_to_root cfg (sandbox_base cfg) = Inr ''.''
          \<and> (\<exists>w. policy cfg (sandbox_base cfg) = Inl (PolicyDenied w))
          \<and> (ENABLE_RUN_COMMANDS cfg \<and> ensure_root cfg env fs0 = (Inr (), fs)
               \<longrightarrow> (\<exists>w. run cfg env exec cmd args ''.'' timeout_sec fs0 = (Inl (PolicyDenied w), fs, []))))"
proof -
  have p1: "\<exists>w. policy cfg ap = Inl (PolicyDenied w)"
    if "ALLOW_GLOBS cfg = [''**/*'']" "rel_to_root cfg ap = Inr rel" "CHR ''/'' \<notin> set rel" for ap rel
    using policy_cases[OF that(2)] that(1,3)
    by (auto simp: fnmatch_any_below split: option.splits)
  have p2: "abs' cfg ''.'' = Inr (sandbox_base cfg) \<and> rel_to_root cfg (sandbox_base cfg) = Inr ''.''
          \<and> (\<exists>w. policy cfg (sandbox_base cfg) = Inl (PolicyDenied w))
          \<and> (ENABLE_RUN_COMMANDS cfg \<and> ensure_root cfg env fs0 = (Inr (), fs)
               \<longrightarrow> (\<exists>w. run cfg env exec cmd args ''.'' timeout_sec fs0 = (Inl (PolicyDenied w), fs, [])))"
    if a: "ALLOW_GLOBS cfg = [''**/*'']" and cwd: "isabs (getcwd cfg)"
  proof -
    have d: "CHR ''/'' \<notin> set ''.''" by simp
    from p1[OF a rel_base[OF cwd] d] obtain w where w: "policy cfg (sandbox_base cfg) = Inl (PolicyDenied w)"
      by blast
    have cp: "checked_path cfg ''.'' = Inl (PolicyDenied w)"
      by (simp add: checked_path_def abs_dot[OF cwd] w)
    have "run cfg env exec cmd args ''.'' timeout_sec fs0 = (Inl (PolicyDenied w), fs, [])"
      if "ENABLE_RUN_COMMANDS cfg" "ensure_root cfg env fs0 = (Inr (), fs)"
      using that by (simp add: run_def cp)
    then show ?thesis using abs_dot[OF cwd] rel_base[OF cwd] w by blast
  qed
  from p1 p2 show ?thesis by blast
qed

theorem root_level_denied_witness:
  "ALLOW_GLOBS example_config = [''**/*'']
   \<and> rel_to_root example_config ''/sandbox/project'' = Inr ''project''
   \<and> CHR ''/'' \<notin> set ''project''
   \<and> (\<exists>w. policy example_config ''/sandbox/project'' = Inl (PolicyDenied w))
   \<and> isabs (getcwd example_config)
   \<and> ENABLE_RUN_COMMANDS example_config
   \<and> ensure_root example_config example_env example_tree = (Inr (), example_tree)
   \<and> (\<exists>w. run example_config example_env exec_exits ''bash'' (Some [''-lc'', ''echo hi'']) ''.'' 30
              example_tree = (Inl (PolicyDenied w), example_tree, []))"
proof -
  have n: "CHR ''/'' \<notin> set ''project''" by simp
  from root_level_denied[of example_config "''/sandbox/project''" "''project''" example_env
      example_tree example_tree exec_exits "''bash''" "Some [''-lc'', ''echo hi'']" 30]
    ex_allow ex_rel_project n ex_cwd ex_enabled ex_root
  show ?thesis by blast
qed


section \<open>The checks of run\<close>

text \<open>
  C4, as amended. \<^verbatim>\<open>run\<close> fails with \<open>FeatureDisabled\<close> before anything else when
  the feature is off. When it is on, the root is made if it is missing, and the working
  directory is resolved and checked against the policy: a working directory that fails
  makes \<^verbatim>\<open>run\<close> fail with that error (\<open>PathEscape\<close> or \<open>PolicyDenied\<close>), whatever
  the command is. Only for a working directory that passes does a basename outside the
  allowlist fail with \<open>CommandNotAllowed\<close>, and after that an argument list that does
  not start with the required prefix fail with \<open>ArgumentPrefixViolation\<close>; otherwise
  the process is spawned and a result returned. With \<^verbatim>\<open>bash -> ["-lc"]\<close> and such a
  working directory, \<^verbatim>\<open>run("bash", ["-lc", "echo hi"])\<close> passes the checks and
  \<^verbatim>\<open>run("bash", ["-c", "echo hi"])\<close> fails with \<open>ArgumentPrefixViolation\<close>.
\<close>

theorem run_checks_in_order:
  "(\<not> ENABLE_RUN_COMMANDS cfg \<longrightarrow>
      run cfg env exec cmd args cwd timeout_sec fs0 = (Inl FeatureDisabled, fs0, []))
   \<and> (ENABLE_RUN_COMMANDS cfg \<and> ensure_root cfg env fs0 = (Inr (), fs) \<longrightarrow>
        (\<forall>e. checked_path cfg cwd = Inl e \<longrightarrow>
           run cfg env exec cmd args cwd timeout_sec fs0 = (Inl e, fs, []))
      \<and> (\<forall>ap_cwd. checked_path cfg cwd = Inr ap_cwd \<longrightarrow>
           (map_of (COMMAND_ALLOWLIST cfg) (basename cmd) = None \<longrightarrow>
              run cfg env exec cmd args cwd timeout_sec fs0
                = (Inl (CommandNotAllowed (basename cmd)), fs, []))
         \<and> (\<forall>prefix. map_of (COMMAND_ALLOWLIST cfg) (basename cmd) = Some prefix \<longrightarrow>
              (take (length prefix) (case args of None \<Rightarrow> [] | Some a \<Rightarrow> a) \<noteq> prefix \<longrightarrow>
                 run cfg env exec cmd args cwd timeout_sec fs0
                   = (Inl (ArgumentPrefixViolation prefix (basename cmd)), fs, []))
            \<and> (take (length prefix) (case args of None \<Rightarrow> [] | Some a \<Rightarrow> a) = prefix \<longrightarrow>
                 (\<exists>result fs' calls.
                    run cfg env exec cmd args cwd timeout_sec fs0 = (Inr result, fs', calls))))
         \<and> (map_of (COMMAND_ALLOWLIST cfg) ''bash'' = Some [''-lc''] \<longrightarrow>
              (\<exists>result fs' calls.
                 run cfg env exec ''bash'' (Some [''-lc'', ''echo hi'']) cwd timeout_sec fs0
                   = (Inr result, fs', calls))
            \<and> run cfg env exec ''bash'' (Some [''-c'', ''echo hi'']) cwd timeout_sec fs0
                 = (Inl (ArgumentPrefixViolation [''-lc''] ''bash''), fs, []))))"
proof -
  have pass: "\<exists>result fs' calls. run cfg env exec c a cwd timeout_sec fs0 = (Inr result, fs', calls)"
    if "ENABLE_RUN_COMMANDS cfg" "ensure_root cfg env fs0 = (Inr (), fs)"
      "checked_path cfg cwd = Inr ap_cwd" "map_of (COMMAND_ALLOWLIST cfg) (basename c) = Some prefix"
      "take (length prefix) (case a of None \<Rightarrow> [] | Some a \<Rightarrow> a) = prefix" for c a ap_cwd prefix
    using run_passes[OF that, of exec timeout_sec]
      run_process_spawns[of cfg exec "c # (case a of None \<Rightarrow> [] | Some a \<Rightarrow> a)" ap_cwd timeout_sec fs]
    by auto
  have ok: "\<exists>result fs' calls.
                 run cfg env exec ''bash'' (Some [''-lc'', ''echo hi'']) cwd timeout_sec fs0
                   = (Inr result, fs', calls)"
    if "ENABLE_RUN_COMMANDS cfg" "ensure_root cfg env fs0 = (Inr (), fs)"
      "checked_path cfg cwd = Inr ap_cwd" "map_of (COMMAND_ALLOWLIST cfg) ''bash'' = Some [''-lc'']"
    for ap_cwd
    using pass[where c="''bash''" and a="Some [''-lc'', ''echo hi'']" and ap_cwd=ap_cwd and prefix="[''-lc'']"] that
    by (simp add: ex_base_bash)
  have bad: "run cfg env exec ''bash'' (Some [''-c'', ''echo hi'']) cwd timeout_sec fs0
                 = (Inl (ArgumentPrefixViolation [''-lc''] ''bash''), fs, [])"
    if "ENABLE_RUN_COMMANDS cfg" "ensure_root cfg env fs0 = (Inr (), fs)"
      "checked_path cfg cwd = Inr ap_cwd" "map_of (COMMAND_ALLOWLIST cfg) ''bash'' = Some [''-lc'']"
    for ap_cwd
    using run_bad_prefix[of cfg env fs0 fs cwd ap_cwd "''bash''" "[''-lc'']" "Some [''-c'', ''echo hi'']" exec timeout_sec] that
    by (simp add: ex_base_bash)
  show ?thesis
    using run_disabled[of cfg env exec cmd args cwd timeout_sec fs0]
      run_cwd_fails[of cfg env fs0 fs cwd _ exec cmd args timeout_sec]
      run_not_allowed[of cfg env fs0 fs cwd _ cmd exec args timeout_sec]
      run_bad_prefix[of cfg env fs0 fs cwd _ cmd _ args exec timeout_sec]
      pass[where c=cmd and a=args] ok bad
    by blast
qed

theorem run_checks_in_order_witness:
  "\<not> ENABLE_RUN_COMMANDS (default_config ''/'' ''/sandbox'' False)
   \<and> run (default_config ''/'' ''/sandbox'' False) example_env exec_exits ''bash''
        (Some [''-lc'', ''echo hi'']) ''project/src'' 30 example_tree
        = (Inl FeatureDisabled, example_tree, [])
   \<and> ENABLE_RUN_COMMANDS example_config
   \<and> ensure_root example_config example_env example_tree = (Inr (), example_tree)
   \<and> checked_path example_config ''../outside'' = Inl PathEscape
   \<and> run example_config example_env exec_exits ''bash'' (Some [''-lc'', ''echo hi'']) ''../outside'' 30
        example_tree = (Inl PathEscape, example_tree, [])
   \<and> checked_path example_config ''project/src'' = Inr ''/sandbox/project/src''
   \<and> map_of (COMMAND_ALLOWLIST example_config) (basename ''nope'') = None
   \<and> run example_config example_env exec_exits ''nope'' None ''project/src'' 30 example_tree
        = (Inl (CommandNotAllowed (basename ''nope'')), example_tree, [])
   \<and> map_of (COMMAND_ALLOWLIST example_config) ''bash'' = Some [''-lc'']
   \<and> (\<exists>result fs' calls.
         run example_config example_env exec_exits ''bash'' (Some [''-lc'', ''echo hi'']) ''project/src'' 30
           example_tree = (Inr result, fs', calls))
   \<and> run example_config example_env exec_exits ''bash'' (Some [''-c'', ''echo hi'']) ''project/src'' 30
        example_tree = (Inl (ArgumentPrefixViolation [''-lc''] ''bash''), example_tree, [])"
proof -
  have d: "\<not> ENABLE_RUN_COMMANDS (default_config ''/'' ''/sandbox'' False)" by code_simp
  have n: "map_of (COMMAND_ALLOWLIST example_config) (basename ''nope'') = None"
    using ex_nope by (simp add: ex_base_nope)
  from
    run_checks_in_order[of "default_config ''/'' ''/sandbox'' False" example_env exec_exits "''bash''"
      "Some [''-lc'', ''echo hi'']" "''project/src''" 30 example_tree example_tree]
    run_checks_in_order[of example_config example_env exec_exits "''bash''"
      "Some [''-lc'', ''echo hi'']" "''../outside''" 30 example_tree example_tree]
    run_checks_in_order[of example_config example_env exec_exits "''nope''"
      None "''project/src''" 30 example_tree example_tree]
    d n ex_enabled ex_root ex_outside ex_src ex_bash
  show ?thesis by blast
qed


text \<open>
  C4 as stated fails: with the feature enabled and a command whose basename is not in
  the allowlist, a working directory outside the root makes \<^verbatim>\<open>run\<close> fail with
  \<open>PathEscape\<close>, not with \<open>CommandNotAllowed\<close>.
\<close>

theorem run_cwd_checked_first_counterexample:
  "ENABLE_RUN_COMMANDS example_config
   \<and> map_of (COMMAND_ALLOWLIST example_config) (basename ''nope'') = None
   \<and> run example_config example_env exec_exits ''nope'' None ''../outside'' 30 example_tree
        = (Inl PathEscape, example_tree, [])
   \<and> run example_config example_env exec_exits ''nope'' None ''../outside'' 30 example_tree
        \<noteq> (Inl (CommandNotAllowed ''nope''), example_tree, [])"
proof -
  have n: "map_of (COMMAND_ALLOWLIST example_config) (basename ''nope'') = None"
    using ex_nope by (simp add: ex_base_nope)
  have r: "run example_config example_env exec_exits ''nope'' None ''../outside'' 30 example_tree
        = (Inl PathEscape, example_tree, [])"
    using ex_enabled ex_root ex_outside by (rule run_cwd_fails)
  show ?thesis using ex_enabled n r by simp
qed


section \<open>The command that is spawned\<close>

text \<open>
  C10. Only the basename of \<open>cmd\<close> is looked up in the allowlist. When the checks
  pass, the process is spawned with the argument vector \<open>cmd # args\<close>: its first
  element is the caller's \<open>cmd\<close> as given, path included, not the basename.
\<close>

theorem run_spawns_cmd_as_given:
  assumes "ENABLE_RUN_COMMANDS cfg"
    and "ensure_root cfg env fs0 = (Inr (), fs)"
    and "checked_path cfg cwd = Inr ap_cwd"
    and "map_of (COMMAND_ALLOWLIST cfg) (basename cmd) = Some prefix"
    and "take (length prefix) (case args of None \<Rightarrow> [] | Some a \<Rightarrow> a) = prefix"
  shows "\<exists>result fs' rest.
           run cfg env exec cmd args cwd timeout_sec fs0
             = (Inr result, fs', Popen (cmd # (case args of None \<Rightarrow> [] | Some a \<Rightarrow> a)) ap_cwd # rest)"
  using run_passes[OF assms, of exec timeout_sec]
    run_process_spawns[of cfg exec "cmd # (case args of None \<Rightarrow> [] | Some a \<Rightarrow> a)" ap_cwd timeout_sec fs]
  by auto


theorem run_spawns_cmd_as_given_witness:
  "ENABLE_RUN_COMMANDS example_config
   \<and> ensure_root example_config example_env example_tree = (Inr (), example_tree)
   \<and> checked_path example_config ''project/src'' = Inr ''/sandbox/project/src''
   \<and> map_of (COMMAND_ALLOWLIST example_config) (basename ''/tmp/anything/bash'') = Some [''-lc'']
   \<and> (\<exists>result fs' rest.
         run example_config example_env exec_exits ''/tmp/anything/bash'' (Some [''-lc'', ''echo hi''])
             ''project/src'' 30 example_tree
           = (Inr result, fs', Popen [''/tmp/anything/bash'', ''-lc'', ''echo hi''] ''/sandbox/project/src'' # rest))"
proof -
  have b: "map_of (COMMAND_ALLOWLIST example_config) (basename ''/tmp/anything/bash'') = Some [''-lc'']"
    using ex_bash by (simp add: ex_base_tmp)
  have p: "take (length [''-lc'']) (case Some [''-lc'', ''echo hi''] of None \<Rightarrow> [] | Some a \<Rightarrow> a) = [''-lc'']"
    by simp
  from run_spawns_cmd_as_given[OF ex_enabled ex_root ex_src b p, of exec_exits 30]
  show ?thesis using ex_enabled ex_root ex_src b by simp
qed


section \<open>A command that exceeds the timeout\<close>






section \<open>Listing a directory\<close>




section \<open>Removing a directory\<close>






section \<open>Boundary violations and the file tree\<close>

text \<open>
  C8, as amended. When a tool fails with a boundary violation, the file tree it leaves
  is the one it found, or the one \<^verbatim>\<open>ensure_root\<close> made of it: nothing but the
  sandbox root and its missing parent directories has been added, and nothing has been
  changed or removed. Where the root already exists, the file tree is the one at the
  start of the call.
\<close>

theorem boundary_violation_leaves_tree:
  assumes "call_tool cfg env exec req fs0 = (Inl e, fs')" and "boundary_violation e"
  shows "(fs' = fs0 \<or> ensure_root cfg env fs0 = (Inr (), fs'))
       \<and> (ensure_root cfg env fs0 = (Inr (), fs0) \<longrightarrow> fs' = fs0)
       \<and> (\<exists>ks. fs' = fs0 @ map (\<lambda>k. (k, new_dir env)) ks
              \<and> (\<forall>k\<in>set ks. below k (path_key (getcwd cfg) (ROOT_DIR cfg))))"
proof -
  note b = call_tool_boundary[OF assms]
  have c: "\<exists>ks. fs' = fs0 @ map (\<lambda>k. (k, new_dir env)) ks
              \<and> (\<forall>k\<in>set ks. below k (path_key (getcwd cfg) (ROOT_DIR cfg)))"
    using b
  proof
    assume "fs' = fs0"
    then show ?thesis by (auto intro: exI[of _ "[]"])
  next
    assume "ensure_root cfg env fs0 = (Inr (), fs')"
    then show ?thesis by (rule ensure_root_adds)
  qed
  from b c show ?thesis by auto
qed


theorem boundary_violation_leaves_tree_witness:
  "call_tool example_config example_env exec_exits
      (WriteText ''../evil.txt'' ''data'' True True None) example_tree
     = (Inl PathEscape, example_tree)
   \<and> boundary_violation PathEscape
   \<and> ensure_root example_config example_env example_tree = (Inr (), example_tree)
   \<and> call_tool example_config example_env exec_exits
      (WriteText ''../evil.txt'' ''data'' True True None) bare_tree
     = (Inl PathEscape, bare_tree @ [([''sandbox''], new_dir example_env)])
   \<and> (bare_tree @ [([''sandbox''], new_dir example_env)] = bare_tree
       \<or> ensure_root example_config example_env bare_tree
           = (Inr (), bare_tree @ [([''sandbox''], new_dir example_env)]))"
proof -
  have b: "boundary_violation PathEscape" by simp
  from boundary_violation_leaves_tree[OF ex_escape_bare b]
    boundary_violation_leaves_tree[OF ex_escape_tree b]
  show ?thesis using ex_escape_bare ex_escape_tree ex_root b by blast
qed


text \<open>
  C8 as stated fails: in a file system where the root has not been made yet,
  \<^verbatim>\<open>write_text\<close> on a path that escapes the root fails with \<open>PathEscape\<close> after
  \<^verbatim>\<open>ensure_root\<close> has made the directory \<^verbatim>\<open>/sandbox\<close>.
\<close>

theorem root_made_before_checks_counterexample:
  "call_tool example_config example_env exec_exits
      (WriteText ''../evil.txt'' ''data'' True True None) bare_tree
     = (Inl PathEscape, bare_tree @ [([''sandbox''], new_dir example_env)])
   \<and> boundary_violation PathEscape
   \<and> lstat_node bare_tree [''sandbox''] = None
   \<and> lstat_node (bare_tree @ [([''sandbox''], new_dir example_env)]) [''sandbox'']
        = Some (new_dir example_env)
   \<and> bare_tree @ [([''sandbox''], new_dir example_env)] \<noteq> bare_tree"
proof -
  have a: "lstat_node bare_tree [''sandbox''] = None" by code_simp
  have c: "lstat_node (bare_tree @ [([''sandbox''], new_dir example_env)]) [''sandbox'']
        = Some (new_dir example_env)" by code_simp
  show ?thesis using ex_escape_bare a c by simp
qed

end
